theory Spec2Isabelle
  imports Main "HOL-Library.Sublist"
begin

text \<open>
  The simulation engine of Project Loom: the \<^verbatim>\<open>Simulation\<close> component of
  \<^verbatim>\<open>ProjectLoomApp\<close> with the prompt builder and the model adapters it calls, all in
  the source file \<^verbatim>\<open>src/unnamed/part_001\<close>. Line numbers below refer to that file.
\<close>

section \<open>Strings\<close>

text \<open>
  JavaScript strings are modelled as HOL strings: a character is a code unit below 256
  (the Latin-1 range, which holds the trait names of the built-in taxonomy and the
  fixed templates). \<open>toLowerCase\<close> maps the capital letters of that range, A to Z and
  U+00C0 to U+00DE without the multiplication sign U+00D7, to the small letters 32
  code units above them and leaves every other character as it is.
  \<open>str_includes s t\<close> is JavaScript's \<^verbatim>\<open>s.includes(t)\<close>: \<open>t\<close> occurs in \<open>s\<close> as a
  contiguous piece.
\<close>

definition toLowerCase_char :: "char \<Rightarrow> char" where
  "toLowerCase_char c =
     (let n = (of_char c :: nat)
      in if (65 \<le> n \<and> n \<le> 90) \<or> (192 \<le> n \<and> n \<le> 222 \<and> n \<noteq> 215)
         then char_of (n + 32) else c)"

definition toLowerCase :: "string \<Rightarrow> string" where
  "toLowerCase s = map toLowerCase_char s"

definition str_includes :: "string \<Rightarrow> string \<Rightarrow> bool" where
  "str_includes s t = sublist t s"

section \<open>Personas and the prompt builder\<close>

text \<open>
  A property that a JavaScript object may lack is an \<open>option\<close>: \<^verbatim>\<open>persona.traits\<close>,
  \<^verbatim>\<open>persona.knowledgeHub\<close>, \<^verbatim>\<open>persona.wordLimit\<close> and \<^verbatim>\<open>trait.intensity\<close> are all
  read behind a truthiness test or a \<^verbatim>\<open>||\<close> default.
\<close>

record trait =
  trait_name :: string
  trait_category :: string
  trait_intensity :: "string option"

record persona =
  persona_id :: nat
  persona_name :: string
  persona_llm :: string
  persona_role :: string
  persona_traits :: "trait list option"
  persona_knowledgeHub :: "string option"
  persona_wordLimit :: "nat option"

text \<open>
  Lines 92 to 96:
  \<^verbatim>\<open>const intensityDesc = { 'Weak': 'slightly', 'Neutral': 'moderately', 'Strong': 'very' }\<close>
  is an object literal, so \<^verbatim>\<open>intensityDesc[key]\<close> finds the three own properties and,
  for any other key, whatever \<^verbatim>\<open>Object.prototype\<close> defines under that name.
  \<open>object_prototype\<close> lists those names with the text a template literal prints for
  the inherited value (as V8 prints it); each of the values is truthy.
\<close>

definition intensityDesc :: "(string \<times> string) list" where
  "intensityDesc =
     [(''Weak'', ''slightly''), (''Neutral'', ''moderately''), (''Strong'', ''very'')]"

definition object_prototype :: "(string \<times> string) list" where
  "object_prototype =
     [(''constructor'', ''function Object() { [native code] }''),
      (''hasOwnProperty'', ''function hasOwnProperty() { [native code] }''),
      (''isPrototypeOf'', ''function isPrototypeOf() { [native code] }''),
      (''propertyIsEnumerable'', ''function propertyIsEnumerable() { [native code] }''),
      (''toLocaleString'', ''function toLocaleString() { [native code] }''),
      (''toString'', ''function toString() { [native code] }''),
      (''valueOf'', ''function valueOf() { [native code] }''),
      (''__defineGetter__'', ''function __defineGetter__() { [native code] }''),
      (''__defineSetter__'', ''function __defineSetter__() { [native code] }''),
      (''__lookupGetter__'', ''function __lookupGetter__() { [native code] }''),
      (''__lookupSetter__'', ''function __lookupSetter__() { [native code] }''),
      (''__proto__'', ''[object Object]'')]"

text \<open>
  Line 97: \<^verbatim>\<open>${intensityDesc[trait.intensity] || 'moderately'}\<close>. A missing intensity is the
  key \<^verbatim>\<open>undefined\<close>, which no object defines.
\<close>

definition intensity_adverb :: "string option \<Rightarrow> string" where
  "intensity_adverb i =
     (case i of
        None \<Rightarrow> ''moderately''
      | Some k \<Rightarrow>
          (case map_of intensityDesc k of
             Some d \<Rightarrow> d
           | None \<Rightarrow>
               (case map_of object_prototype k of
                  Some inherited \<Rightarrow> inherited
                | None \<Rightarrow> ''moderately'')))"

definition trait_line :: "trait \<Rightarrow> string" where
  "trait_line t =
     ''- '' @ intensity_adverb (trait_intensity t) @ '' '' @ toLowerCase (trait_name t)
       @ ''\<newline>''"

definition identity_line :: "persona \<Rightarrow> string" where
  "identity_line p = ''You are '' @ persona_name p @ '', '' @ persona_role p"

definition adherence_instruction :: "persona \<Rightarrow> string" where
  "adherence_instruction p =
     ''IMPORTANT: Stay in character as '' @ persona_name p
       @ ''. Respond based on your traits, role, and background. Keep responses conversational and authentic to your personality.''"

definition traits_header :: string where
  "traits_header = ''Your personality traits:\<newline>''"

definition knowledge_header :: string where
  "knowledge_header = ''Background and Knowledge:\<newline>''"

text \<open>
  \<^verbatim>\<open>buildSystemPrompt(persona)\<close>, lines 86 to 109: \<open>prompt\<close> is built by appending, in the order of
  the source. \<^verbatim>\<open>persona.traits && persona.traits.length > 0\<close> fails for a missing and
  for an empty list; \<^verbatim>\<open>persona.knowledgeHub\<close> is falsy when missing or empty.
\<close>

definition buildSystemPrompt :: "persona \<Rightarrow> string" where
  "buildSystemPrompt p =
     (let prompt = identity_line p @ ''\<newline>\<newline>'';
          prompt =
            (case persona_traits p of
               None \<Rightarrow> prompt
             | Some ts \<Rightarrow>
                 if length ts > 0
                 then foldl (\<lambda>acc t. acc @ trait_line t) (prompt @ traits_header) ts
                        @ ''\<newline>''
                 else prompt);
          prompt =
            (case persona_knowledgeHub p of
               None \<Rightarrow> prompt
             | Some k \<Rightarrow>
                 if k \<noteq> [] then prompt @ knowledge_header @ k @ ''\<newline>\<newline>''
                 else prompt)
      in prompt @ adherence_instruction p)"

section \<open>Transcript messages and environments\<close>

datatype message_type = System | User | AI

text \<open>
  A transcript message. System and user messages are built with the properties
  \<^verbatim>\<open>id, type, content, timestamp\<close> only; agent messages also carry
  \<^verbatim>\<open>persona, llm, isRealAI\<close>. \<open>msg_id\<close> is the reading of \<^verbatim>\<open>Date.now()\<close>,
  \<open>msg_timestamp\<close> the text of \<^verbatim>\<open>new Date().toLocaleTimeString()\<close>.
\<close>

record message =
  msg_id :: nat
  msg_type :: message_type
  msg_persona :: "string option"
  msg_content :: string
  msg_timestamp :: string
  msg_llm :: "string option"
  msg_isRealAI :: "bool option"

record environment =
  env_id :: nat
  env_name :: string
  env_description :: string
  env_participants :: "persona list"
  env_interactionMode :: string
  env_wordLimit :: nat
  env_linkedEnvironment :: string
  env_startingPrompt :: string
  env_humanModerator :: bool

text \<open>\<^verbatim>\<open>apiKeys\<close>, the state of the enclosing component; both keys start as \<^verbatim>\<open>''\<close>.\<close>

record api_keys =
  key_openai :: string
  key_claude :: string

section \<open>Model adapters\<close>

text \<open>
  What an adapter hands to \<^verbatim>\<open>fetch\<close>: the URL, the headers and the properties of the
  JSON body. \<open>req_messages\<close> holds (role, content) pairs.
\<close>

record request =
  req_url :: string
  req_method :: string
  req_headers :: "(string \<times> string) list"
  req_model :: string
  req_system :: "string option"
  req_messages :: "(string \<times> string) list"
  req_max_tokens :: nat
  req_temperature :: "string option"

text \<open>
  What the provider does with a request, as far as the adapter looks at it:
  \<^item> \<open>Throws m\<close>: \<^verbatim>\<open>fetch\<close>, \<^verbatim>\<open>response.json()\<close> or the access to the reply text throws an
    error with message \<open>m\<close>;
  \<^item> \<open>Not_ok m\<close>: \<^verbatim>\<open>response.ok\<close> is false and \<^verbatim>\<open>error.error?.message\<close> is \<open>m\<close>;
  \<^item> \<open>Is_ok text\<close>: \<^verbatim>\<open>response.ok\<close> is true and the reply text is \<open>text\<close>.
\<close>

datatype fetch_outcome = Throws string | Not_ok "string option" | Is_ok string

datatype error = Error string

definition max_tokens :: "persona \<Rightarrow> nat" where
  \<comment> \<open>\<^verbatim>\<open>persona.wordLimit || 200\<close>\<close>
  "max_tokens persona =
     (case persona_wordLimit persona of
        None \<Rightarrow> 200
      | Some n \<Rightarrow> if n = 0 then 200 else n)"

definition history_entry :: "message \<Rightarrow> string \<times> string" where
  "history_entry msg = (if msg_type msg = User then ''user'' else ''assistant'', msg_content msg)"

definition upstream_message :: "string option \<Rightarrow> string" where
  \<comment> \<open>\<^verbatim>\<open>error.error?.message || 'Unknown error'\<close>\<close>
  "upstream_message m =
     (case m of None \<Rightarrow> ''Unknown error'' | Some t \<Rightarrow> if t = [] then ''Unknown error'' else t)"

text \<open>
  The argument of \<^verbatim>\<open>fetch\<close> in \<^verbatim>\<open>callOpenAI\<close> (lines 23 to 41) and in \<^verbatim>\<open>callClaude\<close>
  (lines 59 to 75), built after
  \<^verbatim>\<open>const systemPrompt = buildSystemPrompt(persona)\<close>.
\<close>

definition openai_request :: "api_keys \<Rightarrow> message list \<Rightarrow> persona \<Rightarrow> request" where
  "openai_request apiKeys messages persona =
     \<lparr> req_url = ''https://api.openai.com/v1/chat/completions'',
       req_method = ''POST'',
       req_headers =
         [(''Authorization'', ''Bearer '' @ key_openai apiKeys),
          (''Content-Type'', ''application/json'')],
       req_model = ''gpt-4'',
       req_system = None,
       req_messages = (''system'', buildSystemPrompt persona) # map history_entry messages,
       req_max_tokens = max_tokens persona,
       req_temperature = Some ''0.8'' \<rparr>"

definition claude_request :: "api_keys \<Rightarrow> message list \<Rightarrow> persona \<Rightarrow> request" where
  "claude_request apiKeys messages persona =
     \<lparr> req_url = ''https://api.anthropic.com/v1/messages'',
       req_method = ''POST'',
       req_headers =
         [(''x-api-key'', key_claude apiKeys),
          (''Content-Type'', ''application/json''),
          (''anthropic-version'', ''2023-06-01'')],
       req_model = ''claude-3-sonnet-20240229'',
       req_system = Some (buildSystemPrompt persona),
       req_messages = map history_entry messages,
       req_max_tokens = max_tokens persona,
       req_temperature = None \<rparr>"

text \<open>
  \<^verbatim>\<open>callOpenAI\<close> (lines 16 to 50) and \<^verbatim>\<open>callClaude\<close> (lines 52 to 84). An adapter
  returns its result (\<open>Inl\<close> for a thrown error) together with the requests it handed
  to \<^verbatim>\<open>fetch\<close>.
\<close>

definition callOpenAI ::
  "api_keys \<Rightarrow> (request \<Rightarrow> fetch_outcome) \<Rightarrow> message list \<Rightarrow> persona
     \<Rightarrow> (error + string) \<times> request list" where
  "callOpenAI apiKeys fetch messages persona =
     (if key_openai apiKeys = [] then (Inl (Error ''OpenAI API key not configured''), [])
      else
        let req = openai_request apiKeys messages persona
        in (case fetch req of
              Throws m \<Rightarrow> Inl (Error m)
            | Not_ok m \<Rightarrow> Inl (Error (''OpenAI API Error: '' @ upstream_message m))
            | Is_ok text \<Rightarrow> Inr text,
            [req]))"

definition callClaude ::
  "api_keys \<Rightarrow> (request \<Rightarrow> fetch_outcome) \<Rightarrow> message list \<Rightarrow> persona
     \<Rightarrow> (error + string) \<times> request list" where
  "callClaude apiKeys fetch messages persona =
     (if key_claude apiKeys = [] then (Inl (Error ''Claude API key not configured''), [])
      else
        let req = claude_request apiKeys messages persona
        in (case fetch req of
              Throws m \<Rightarrow> Inl (Error m)
            | Not_ok m \<Rightarrow> Inl (Error (''Claude API Error: '' @ upstream_message m))
            | Is_ok text \<Rightarrow> Inr text,
            [req]))"

text \<open>
  \<^verbatim>\<open>getSimulatedResponse(persona)\<close>, lines 130 to 144. The draw
  \<^verbatim>\<open>Math.floor(Math.random() * responses.length)\<close> is the argument \<open>rnd\<close>; it is an index
  below \<^verbatim>\<open>responses.length\<close>, which \<open>mod\<close> keeps it to.
\<close>

definition responses :: "persona \<Rightarrow> string list" where
  "responses persona =
     [''As '' @ persona_name persona @ '', given my role as '' @ persona_role persona
        @ '', I think we should approach this systematically. My experience tells me that this situation requires careful consideration of all stakeholders involved.'',
      ''Speaking from my perspective as '' @ persona_role persona
        @ '', I'd like to challenge some assumptions here. We're looking at this from a narrow perspective, and I believe we need to expand our thinking beyond conventional solutions.'',
      ''I appreciate the different viewpoints being shared. From my analytical perspective, I see several patterns emerging that we should address. Let me break down what I'm observing and propose a path forward.'',
      ''This reminds me of a similar situation I encountered before. The key insight I gained was that sustainable solutions often require us to balance competing priorities rather than choosing sides.'',
      ''I'm curious about the underlying motivations here. If we dig deeper into the 'why' behind these surface-level issues, I think we'll find more creative and effective approaches to resolution.'']"

definition getSimulatedResponse :: "nat \<Rightarrow> persona \<Rightarrow> string" where
  "getSimulatedResponse rnd persona =
     responses persona ! (rnd mod length (responses persona))"

text \<open>
  \<^verbatim>\<open>callRealAI(persona, conversationHistory)\<close>, lines 111 to 128: the \<^verbatim>\<open>try\<close> block dispatches on
  \<^verbatim>\<open>persona.llm\<close>; the \<^verbatim>\<open>catch\<close> block turns every error of an adapter into a returned
  text.
\<close>

definition callRealAI ::
  "api_keys \<Rightarrow> (request \<Rightarrow> fetch_outcome) \<Rightarrow> nat \<Rightarrow> persona \<Rightarrow> message list
     \<Rightarrow> (error + string) \<times> request list" where
  "callRealAI apiKeys fetch rnd persona conversationHistory =
     (let (response, sent) =
            (if persona_llm persona = ''ChatGPT (OpenAI)''
             then callOpenAI apiKeys fetch conversationHistory persona
             else if persona_llm persona = ''Claude (Anthropic)''
             then callClaude apiKeys fetch conversationHistory persona
             else (Inr (getSimulatedResponse rnd persona), []))
      in (case response of
            Inr text \<Rightarrow> Inr text
          | Inl (Error m) \<Rightarrow>
              Inr (''['' @ persona_name persona @ '']: '' @ m
                   @ ''. Falling back to simulated response: ''
                   @ getSimulatedResponse rnd persona),
          sent))"

section \<open>The simulation view\<close>

text \<open>
  The state of the \<^verbatim>\<open>Simulation\<close> component (lines 941 to 947): its \<^verbatim>\<open>useState\<close>
  cells and the \<^verbatim>\<open>simulationRunningRef\<close> cell of \<^verbatim>\<open>useRef\<close>, all of which start empty
  or false when the component is mounted. Three more fields record what the view
  has done: the requests handed to \<^verbatim>\<open>fetch\<close>, the number of turns started (calls of
  \<^verbatim>\<open>simulateAIResponse\<close>) and the number of turns finished (calls that have returned).
\<close>

record sim_state =
  selectedEnvironment :: "environment option"
  userMessage :: string
  isProcessing :: bool
  localChatHistory :: "message list"
  isSimulationRunning :: bool
  simulationRunningRef :: bool
  sent_requests :: "request list"
  turns_started :: nat
  turns_finished :: nat

definition initial_state :: sim_state where
  "initial_state =
     \<lparr> selectedEnvironment = None, userMessage = [], isProcessing = False,
       localChatHistory = [], isSimulationRunning = False, simulationRunningRef = False,
       sent_requests = [], turns_started = 0, turns_finished = 0 \<rparr>"

text \<open>
  Lines 949 to 951,
  \<^verbatim>\<open>useEffect(() => { simulationRunningRef.current = isSimulationRunning; }, [isSimulationRunning])\<close>:
  the only assignment to the ref. React runs it after the render that follows a state
  update, that is after the handler that made the update has returned or reached an
  \<^verbatim>\<open>await\<close>.
\<close>

definition run_effects :: "sim_state \<Rightarrow> sim_state" where
  "run_effects s = s\<lparr>simulationRunningRef := isSimulationRunning s\<rparr>"

text \<open>
  \<^verbatim>\<open>startSimulation(environment)\<close>, lines 959 to 973: the second \<^verbatim>\<open>setLocalChatHistory\<close> replaces the
  first when the starting prompt is a non-empty string.
\<close>

definition startSimulation :: "environment \<Rightarrow> nat \<Rightarrow> string \<Rightarrow> sim_state \<Rightarrow> sim_state" where
  "startSimulation environment now time s =
     s\<lparr> selectedEnvironment := Some environment,
        localChatHistory :=
          (if env_startingPrompt environment \<noteq> []
           then [\<lparr> msg_id = now, msg_type = System, msg_persona = None,
                    msg_content = env_startingPrompt environment, msg_timestamp = time,
                    msg_llm = None, msg_isRealAI = None \<rparr>]
           else []) \<rparr>"

text \<open>
  What one turn reads from outside the program: the provider's behaviour, the random
  draw, the clock.
\<close>

record turn_env =
  te_fetch :: "request \<Rightarrow> fetch_outcome"
  te_rnd :: nat
  te_now :: nat
  te_time :: string

text \<open>
  \<^verbatim>\<open>simulateAIResponse(persona)\<close>, lines 975 to 1027, in three pieces. \<open>turn_reply\<close> is the body of the
  \<^verbatim>\<open>try\<close> block up to the construction of the message: the result of the awaited call
  (\<open>Inl\<close> if it threw), the value of \<^verbatim>\<open>isRealAI\<close> and the requests sent.
  \<^verbatim>\<open>localChatHistory\<close> there is the variable of the closure, the transcript of the
  render whose handler started the turn.
\<close>

definition turn_reply ::
  "api_keys \<Rightarrow> turn_env \<Rightarrow> message list \<Rightarrow> persona
     \<Rightarrow> ((error + string) \<times> bool) \<times> request list" where
  "turn_reply apiKeys te closureHistory persona =
     (let conversationContext = filter (\<lambda>msg. msg_type msg \<noteq> System) closureHistory
      in if key_openai apiKeys \<noteq> [] \<and> persona_llm persona = ''ChatGPT (OpenAI)''
         then (let (response, sent) =
                     callRealAI apiKeys (te_fetch te) (te_rnd te) persona conversationContext
               in ((response, True), sent))
         else if key_claude apiKeys \<noteq> [] \<and> persona_llm persona = ''Claude (Anthropic)''
         then (let (response, sent) =
                     callRealAI apiKeys (te_fetch te) (te_rnd te) persona conversationContext
               in ((response, True), sent))
         else ((Inr (getSimulatedResponse (te_rnd te) persona), False), []))"

text \<open>
  The message of the turn: \<^verbatim>\<open>newMessage\<close> of the \<^verbatim>\<open>try\<close> block when the awaited call
  returned, \<^verbatim>\<open>newMessage\<close> of the \<^verbatim>\<open>catch\<close> block when it threw.
\<close>

definition turn_message :: "turn_env \<Rightarrow> persona \<Rightarrow> (error + string) \<times> bool \<Rightarrow> message" where
  "turn_message te persona reply =
     (case reply of
        (Inr response, isRealAI) \<Rightarrow>
          \<lparr> msg_id = te_now te, msg_type = AI, msg_persona = Some (persona_name persona),
            msg_content = response, msg_timestamp = te_time te,
            msg_llm = Some (persona_llm persona), msg_isRealAI = Some isRealAI \<rparr>
      | (Inl err, isRealAI) \<Rightarrow>
          \<lparr> msg_id = te_now te, msg_type = AI, msg_persona = Some (persona_name persona),
            msg_content = ''[Connection Error]: '' @ getSimulatedResponse (te_rnd te) persona,
            msg_timestamp = te_time te,
            msg_llm = Some (persona_llm persona), msg_isRealAI = Some False \<rparr>)"

text \<open>
  Up to the \<^verbatim>\<open>await\<close>: \<^verbatim>\<open>setIsProcessing(true)\<close> and the requests go out. From the
  \<^verbatim>\<open>await\<close> on: \<^verbatim>\<open>setLocalChatHistory(prev => [...prev, newMessage])\<close> and
  \<^verbatim>\<open>setIsProcessing(false)\<close>.
\<close>

definition simulateAIResponse_start :: "request list \<Rightarrow> sim_state \<Rightarrow> sim_state" where
  "simulateAIResponse_start sent s =
     s\<lparr> isProcessing := True,
        sent_requests := sent_requests s @ sent,
        turns_started := Suc (turns_started s) \<rparr>"

definition simulateAIResponse_resume :: "message \<Rightarrow> sim_state \<Rightarrow> sim_state" where
  "simulateAIResponse_resume newMessage s =
     s\<lparr> localChatHistory := localChatHistory s @ [newMessage], isProcessing := False,
        turns_finished := Suc (turns_finished s) \<rparr>"

text \<open>
  A turn during whose \<^verbatim>\<open>await\<close> no other handler runs, and \<^verbatim>\<open>handleManualTurn\<close>
  (lines 1069 to 1072) with such a turn.
\<close>

definition simulateAIResponse ::
  "api_keys \<Rightarrow> turn_env \<Rightarrow> message list \<Rightarrow> persona \<Rightarrow> sim_state \<Rightarrow> sim_state" where
  "simulateAIResponse apiKeys te closureHistory persona s =
     (let (reply, sent) = turn_reply apiKeys te closureHistory persona
      in simulateAIResponse_resume (turn_message te persona reply)
           (simulateAIResponse_start sent s))"

definition handleManualTurn :: "api_keys \<Rightarrow> turn_env \<Rightarrow> persona \<Rightarrow> sim_state \<Rightarrow> sim_state" where
  "handleManualTurn apiKeys te persona s =
     (if isProcessing s then s
      else simulateAIResponse apiKeys te (localChatHistory s) persona s)"

text \<open>
  \<^verbatim>\<open>handleUserMessage\<close>, lines 1074 to 1086, and \<^verbatim>\<open>stopSimulation\<close>, lines 1088 to 1091.
  \<^verbatim>\<open>userMessage.trim()\<close> removes white space and line terminators from both ends: of
  the characters below 256 these are the tab, the line feed, the vertical tab, the form
  feed, the carriage return, the space and the no-break space.
\<close>

definition is_white_space :: "char \<Rightarrow> bool" where
  "is_white_space c = (of_char c \<in> {9::nat, 10, 11, 12, 13, 32, 160})"

definition trim :: "string \<Rightarrow> string" where
  "trim s = rev (dropWhile is_white_space (rev (dropWhile is_white_space s)))"

definition handleUserMessage :: "nat \<Rightarrow> string \<Rightarrow> sim_state \<Rightarrow> sim_state" where
  "handleUserMessage now time s =
     (if trim (userMessage s) = [] then s
      else s\<lparr> localChatHistory :=
                 localChatHistory s
                   @ [\<lparr> msg_id = now, msg_type = User, msg_persona = None,
                         msg_content = userMessage s, msg_timestamp = time,
                         msg_llm = None, msg_isRealAI = None \<rparr>],
               userMessage := [] \<rparr>)"

definition stopSimulation :: "sim_state \<Rightarrow> sim_state" where
  "stopSimulation s = s\<lparr> isSimulationRunning := False, isProcessing := False \<rparr>"

text \<open>The \<^verbatim>\<open>onClick\<close> of the Back button, lines 1215 to 1219.\<close>

definition handleBack :: "sim_state \<Rightarrow> sim_state" where
  "handleBack s =
     s\<lparr> selectedEnvironment := None, localChatHistory := [], isSimulationRunning := False \<rparr>"

section \<open>The auto-loop\<close>

text \<open>
  \<^verbatim>\<open>handleAutoLoop\<close> (lines 1029 to 1068) is an \<^verbatim>\<open>async\<close> function: it runs until it
  suspends, and what it has suspended on resumes it later, after any handlers of the
  view that ran in between. It suspends at three places: in \<^verbatim>\<open>simulateAIResponse\<close>,
  while the turn of \<^verbatim>\<open>participants[i]\<close> awaits its reply; in the 1500 ms pause after
  that turn; and between two rounds, where \<^verbatim>\<open>runNextTurn\<close> has returned and the timer
  of \<^verbatim>\<open>setTimeout(runNextTurn, 1000)\<close> is pending. A turn in flight is the persona, the
  outcome of the awaited call and what the turn reads from outside.
\<close>

record pending_turn =
  pt_persona :: persona
  pt_reply :: "(error + string) \<times> bool"
  pt_env :: turn_env

datatype suspension = Awaiting_reply nat pending_turn | Pacing nat | Round_timer

text \<open>
  A suspended call of \<^verbatim>\<open>handleAutoLoop\<close>: the variables of its closure, which are
  \<^verbatim>\<open>participants\<close>, the \<^verbatim>\<open>localChatHistory\<close> that the \<^verbatim>\<open>simulateAIResponse\<close> of the same
  render reads, and \<^verbatim>\<open>currentRound\<close>; and the place where it is suspended, with the
  loop index \<^verbatim>\<open>i\<close>.
\<close>

record auto_loop =
  al_participants :: "persona list"
  al_history :: "message list"
  al_round :: nat
  al_at :: suspension

definition maxRounds :: nat where
  "maxRounds = 5"

text \<open>
  Each piece below runs from one point of \<^verbatim>\<open>runNextTurn\<close> to the next suspension or to
  the return, and gives the state of the view and the suspended call, if the call has
  suspended. No render happens inside a piece, so every poll of a piece reads the same
  \<^verbatim>\<open>simulationRunningRef.current\<close>.

  The code after the \<^verbatim>\<open>for\<close> loop, lines 1059 to 1064, reached when the loop condition
  fails and by either \<^verbatim>\<open>break\<close>.
\<close>

definition after_for ::
  "persona list \<Rightarrow> message list \<Rightarrow> nat \<Rightarrow> sim_state \<Rightarrow> sim_state \<times> auto_loop option" where
  "after_for participants closureHistory r s =
     (let currentRound = Suc r
      in if simulationRunningRef s \<and> currentRound < maxRounds
         then (s, Some \<lparr> al_participants = participants, al_history = closureHistory,
                         al_round = currentRound, al_at = Round_timer \<rparr>)
         else (s\<lparr>isSimulationRunning := False\<rparr>, None))"

text \<open>
  The \<^verbatim>\<open>for\<close> loop entered at its condition with the index \<open>i\<close>, lines 1044 to 1049: the
  condition \<^verbatim>\<open>i < participants.length\<close>, the poll before the turn, and
  \<^verbatim>\<open>simulateAIResponse(persona, ...)\<close> up to its \<^verbatim>\<open>await\<close>. \<^verbatim>\<open>simulateAIResponse\<close> handles
  every error of its own body and the timer of the pause cannot fail, so the \<^verbatim>\<open>catch\<close>
  of the loop has nothing to catch.
\<close>

definition for_participants ::
  "api_keys \<Rightarrow> turn_env \<Rightarrow> persona list \<Rightarrow> message list \<Rightarrow> nat \<Rightarrow> nat \<Rightarrow> sim_state
     \<Rightarrow> sim_state \<times> auto_loop option" where
  "for_participants apiKeys te participants closureHistory r i s =
     (if i < length participants
      then
        if \<not> simulationRunningRef s then after_for participants closureHistory r s
        else
          let persona = participants ! i;
              (reply, sent) = turn_reply apiKeys te closureHistory persona
          in (simulateAIResponse_start sent s,
              Some \<lparr> al_participants = participants, al_history = closureHistory,
                     al_round = r,
                     al_at = Awaiting_reply i
                               \<lparr> pt_persona = persona, pt_reply = reply, pt_env = te \<rparr> \<rparr>)
      else after_for participants closureHistory r s)"

text \<open>
  \<^verbatim>\<open>runNextTurn\<close> from its first line (lines 1038 to 1042) with \<^verbatim>\<open>currentRound = r\<close>: the
  poll before the round and the test of the round budget.
\<close>

definition runNextTurn ::
  "api_keys \<Rightarrow> turn_env \<Rightarrow> persona list \<Rightarrow> message list \<Rightarrow> nat \<Rightarrow> sim_state
     \<Rightarrow> sim_state \<times> auto_loop option" where
  "runNextTurn apiKeys te participants closureHistory r s =
     (if \<not> simulationRunningRef s then (s, None)
      else if r \<ge> maxRounds then (s\<lparr>isSimulationRunning := False\<rparr>, None)
      else for_participants apiKeys te participants closureHistory r 0 s)"

text \<open>
  A suspended call resumes. When the reply of its turn arrives, \<^verbatim>\<open>simulateAIResponse\<close>
  appends the message and returns, and the loop goes on to its pause (line 1050). When
  the pause ends, the poll after the turn (line 1056), \<^verbatim>\<open>i++\<close> and the loop condition
  follow. When the timer between two rounds fires, \<^verbatim>\<open>runNextTurn\<close> is called. \<open>te\<close> is
  what the resumed piece reads from outside: the clock for the message of the turn that
  ends, the provider and the draw for the turn that starts.
\<close>

definition loop_resumes ::
  "api_keys \<Rightarrow> turn_env \<Rightarrow> auto_loop \<Rightarrow> sim_state \<Rightarrow> sim_state \<times> auto_loop option" where
  "loop_resumes apiKeys te l s =
     (case al_at l of
        Awaiting_reply i pt \<Rightarrow>
          (simulateAIResponse_resume
             (turn_message ((pt_env pt)\<lparr> te_now := te_now te, te_time := te_time te \<rparr>)
                (pt_persona pt) (pt_reply pt))
             s,
           Some (l\<lparr> al_at := Pacing i \<rparr>))
      | Pacing i \<Rightarrow>
          if \<not> simulationRunningRef s
          then after_for (al_participants l) (al_history l) (al_round l) s
          else for_participants apiKeys te (al_participants l) (al_history l) (al_round l)
                 (Suc i) s
      | Round_timer \<Rightarrow>
          runNextTurn apiKeys te (al_participants l) (al_history l) (al_round l) s)"

text \<open>
  \<^verbatim>\<open>handleAutoLoop\<close> up to its first suspension or return: \<^verbatim>\<open>setIsSimulationRunning(true)\<close>
  is a state update, and \<^verbatim>\<open>runNextTurn()\<close> is called in the same handler, before React
  renders and runs the effect; the first poll of \<^verbatim>\<open>runNextTurn\<close> reads the ref as the
  last effect left it.
\<close>

definition handleAutoLoop ::
  "api_keys \<Rightarrow> turn_env \<Rightarrow> sim_state \<Rightarrow> sim_state \<times> auto_loop option" where
  "handleAutoLoop apiKeys te s =
     (case selectedEnvironment s of
        None \<Rightarrow> (s, None)
      | Some environment \<Rightarrow>
          if isProcessing s then (s, None)
          else runNextTurn apiKeys te (env_participants environment) (localChatHistory s) 0
                 (s\<lparr>isSimulationRunning := True\<rparr>))"

section \<open>A session of the simulation view\<close>

text \<open>
  Handlers are interleaved at their \<^verbatim>\<open>await\<close>s. A session is the state of the view
  together with what is suspended: the manual turns that have gone out and not come
  back, and the calls of \<^verbatim>\<open>handleAutoLoop\<close> that have not returned. A session lasts as
  long as the component stays mounted; leaving the page unmounts it, and the next visit
  starts from the initial state.
\<close>

record session =
  view :: sim_state
  pending :: "pending_turn list"
  calls :: "auto_loop list"

definition initial_session :: session where
  "initial_session = \<lparr> view = initial_state, pending = [], calls = [] \<rparr>"

text \<open>
  What can happen to a session: a click or a keystroke of the user, with the clock
  readings and the outside behaviour its handler consumes; the arrival of the reply of
  the pending manual turn at a position of the list; or the resumption of the
  suspended call of \<^verbatim>\<open>handleAutoLoop\<close> at a position of the list, when its reply has
  arrived or its timer has fired.
\<close>

datatype ui_event =
    Start_simulation environment nat string
  | Click_auto_run turn_env
  | Click_stop
  | Click_speak persona turn_env
  | Type_message string
  | Send_message nat string
  | Click_export
  | Click_back
  | Reply_arrives nat nat string
  | Loop_resumes nat turn_env

text \<open>
  Which controls the JSX renders (lines 1110 to 1322). Without a selected environment the view shows the
  environment cards with their Start Simulation buttons. With one it shows: the
  Auto-Run / Stop button when \<^verbatim>\<open>interactionMode === 'auto-loop'\<close>, reading Stop when
  \<^verbatim>\<open>isSimulationRunning\<close>; a Speak button per participant when
  \<^verbatim>\<open>interactionMode === 'manual'\<close>, with \<^verbatim>\<open>disabled={isProcessing}\<close>; the message input
  when \<^verbatim>\<open>interactionMode === 'mixed' || humanModerator\<close>; Export and Back always.
  What is suspended can resume at any time.
\<close>

fun enabled :: "ui_event \<Rightarrow> session \<Rightarrow> bool" where
  "enabled (Start_simulation environment now time) \<sigma> =
     (selectedEnvironment (view \<sigma>) = None)"
| "enabled (Click_auto_run te) \<sigma> =
     (case selectedEnvironment (view \<sigma>) of
        None \<Rightarrow> False
      | Some e \<Rightarrow> env_interactionMode e = ''auto-loop'' \<and> \<not> isSimulationRunning (view \<sigma>))"
| "enabled Click_stop \<sigma> =
     (case selectedEnvironment (view \<sigma>) of
        None \<Rightarrow> False
      | Some e \<Rightarrow> env_interactionMode e = ''auto-loop'' \<and> isSimulationRunning (view \<sigma>))"
| "enabled (Click_speak persona te) \<sigma> =
     (case selectedEnvironment (view \<sigma>) of
        None \<Rightarrow> False
      | Some e \<Rightarrow> env_interactionMode e = ''manual'' \<and> persona \<in> set (env_participants e)
                  \<and> \<not> isProcessing (view \<sigma>))"
| "enabled (Type_message text) \<sigma> =
     (case selectedEnvironment (view \<sigma>) of
        None \<Rightarrow> False
      | Some e \<Rightarrow> env_interactionMode e = ''mixed'' \<or> env_humanModerator e)"
| "enabled (Send_message now time) \<sigma> =
     (case selectedEnvironment (view \<sigma>) of
        None \<Rightarrow> False
      | Some e \<Rightarrow> env_interactionMode e = ''mixed'' \<or> env_humanModerator e)"
| "enabled Click_export \<sigma> = (selectedEnvironment (view \<sigma>) \<noteq> None)"
| "enabled Click_back \<sigma> = (selectedEnvironment (view \<sigma>) \<noteq> None)"
| "enabled (Reply_arrives k now time) \<sigma> = (k < length (pending \<sigma>))"
| "enabled (Loop_resumes k te) \<sigma> = (k < length (calls \<sigma>))"

text \<open>
  \<^verbatim>\<open>handleManualTurn\<close> up to the \<^verbatim>\<open>await\<close> inside \<^verbatim>\<open>simulateAIResponse\<close>, and the rest
  of \<^verbatim>\<open>simulateAIResponse\<close> when the reply of a pending turn arrives.
\<close>

definition handleManualTurn_start :: "api_keys \<Rightarrow> turn_env \<Rightarrow> persona \<Rightarrow> session \<Rightarrow> session" where
  "handleManualTurn_start apiKeys te persona \<sigma> =
     (if isProcessing (view \<sigma>) then \<sigma>
      else
        let (reply, sent) = turn_reply apiKeys te (localChatHistory (view \<sigma>)) persona
        in \<sigma>\<lparr> view := simulateAIResponse_start sent (view \<sigma>),
              pending := pending \<sigma> @ [\<lparr> pt_persona = persona, pt_reply = reply, pt_env = te \<rparr>] \<rparr>)"

definition reply_arrives :: "nat \<Rightarrow> nat \<Rightarrow> string \<Rightarrow> session \<Rightarrow> session" where
  "reply_arrives k now time \<sigma> =
     (if k < length (pending \<sigma>)
      then
        let pt = pending \<sigma> ! k;
            te = (pt_env pt)\<lparr> te_now := now, te_time := time \<rparr>
        in \<sigma>\<lparr> view := simulateAIResponse_resume (turn_message te (pt_persona pt) (pt_reply pt))
                       (view \<sigma>),
              pending := take k (pending \<sigma>) @ drop (Suc k) (pending \<sigma>) \<rparr>
      else \<sigma>)"

text \<open>
  A click on Auto-Run runs \<^verbatim>\<open>handleAutoLoop\<close> up to its first suspension; the call joins
  the suspended ones unless it has returned. A suspended call that resumes runs to its
  next suspension and keeps its place, or returns and leaves the list.
\<close>

definition click_auto_run :: "api_keys \<Rightarrow> turn_env \<Rightarrow> session \<Rightarrow> session" where
  "click_auto_run apiKeys te \<sigma> =
     (let (s, suspended) = handleAutoLoop apiKeys te (view \<sigma>)
      in \<sigma>\<lparr> view := run_effects s,
            calls := (case suspended of
                        None \<Rightarrow> calls \<sigma>
                      | Some l \<Rightarrow> calls \<sigma> @ [l]) \<rparr>)"

definition loop_resumes_at :: "api_keys \<Rightarrow> nat \<Rightarrow> turn_env \<Rightarrow> session \<Rightarrow> session" where
  "loop_resumes_at apiKeys k te \<sigma> =
     (if k < length (calls \<sigma>)
      then
        let (s, suspended) = loop_resumes apiKeys te (calls \<sigma> ! k) (view \<sigma>)
        in \<sigma>\<lparr> view := run_effects s,
              calls := (case suspended of
                          None \<Rightarrow> take k (calls \<sigma>) @ drop (Suc k) (calls \<sigma>)
                        | Some l \<Rightarrow> (calls \<sigma>)[k := l]) \<rparr>
      else \<sigma>)"

text \<open>
  The handler of each event, followed by the effect of the render where the handler
  may have assigned \<^verbatim>\<open>isSimulationRunning\<close>. \<^verbatim>\<open>exportChat\<close> assigns no state.
\<close>

fun fire :: "api_keys \<Rightarrow> ui_event \<Rightarrow> session \<Rightarrow> session" where
  "fire apiKeys (Start_simulation environment now time) \<sigma> =
     \<sigma>\<lparr> view := run_effects (startSimulation environment now time (view \<sigma>)) \<rparr>"
| "fire apiKeys (Click_auto_run te) \<sigma> = click_auto_run apiKeys te \<sigma>"
| "fire apiKeys Click_stop \<sigma> =
     \<sigma>\<lparr> view := run_effects (stopSimulation (view \<sigma>)) \<rparr>"
| "fire apiKeys (Click_speak persona te) \<sigma> =
     handleManualTurn_start apiKeys te persona \<sigma>"
| "fire apiKeys (Type_message text) \<sigma> =
     \<sigma>\<lparr> view := (view \<sigma>)\<lparr> userMessage := text \<rparr> \<rparr>"
| "fire apiKeys (Send_message now time) \<sigma> =
     \<sigma>\<lparr> view := handleUserMessage now time (view \<sigma>) \<rparr>"
| "fire apiKeys Click_export \<sigma> = \<sigma>"
| "fire apiKeys Click_back \<sigma> =
     \<sigma>\<lparr> view := run_effects (handleBack (view \<sigma>)) \<rparr>"
| "fire apiKeys (Reply_arrives k now time) \<sigma> = reply_arrives k now time \<sigma>"
| "fire apiKeys (Loop_resumes k te) \<sigma> = loop_resumes_at apiKeys k te \<sigma>"

inductive reachable :: "api_keys \<Rightarrow> session \<Rightarrow> bool" for apiKeys :: api_keys where
  reachable_initial: "reachable apiKeys initial_session"
| reachable_fire:
    "reachable apiKeys \<sigma> \<Longrightarrow> enabled e \<sigma> \<Longrightarrow> reachable apiKeys (fire apiKeys e \<sigma>)"

text \<open>A session after a list of events, one after the other.\<close>

definition fire_all :: "api_keys \<Rightarrow> ui_event list \<Rightarrow> session \<Rightarrow> session" where
  "fire_all apiKeys es \<sigma> = foldl (\<lambda>\<sigma>' e. fire apiKeys e \<sigma>') \<sigma> es"

section \<open>The export\<close>

text \<open>
  \<^verbatim>\<open>JSON.stringify\<close> and \<^verbatim>\<open>JSON.parse\<close> belong to the platform. They are modelled
  after ECMA-262 for the values an export is made of: objects, arrays, strings,
  booleans, \<^verbatim>\<open>null\<close> and the natural numbers (the message ids are readings of
  \<^verbatim>\<open>Date.now()\<close>, integers that JavaScript holds exactly and prints in decimal
  notation). An object is the list of its properties in insertion order.
\<close>

datatype json =
    JNull
  | JBool bool
  | JNumber nat
  | JString string
  | JArray "json list"
  | JObject "(string \<times> json) list"

definition digit_char :: "nat \<Rightarrow> char" where
  "digit_char d = char_of (48 + d)"

function show_nat :: "nat \<Rightarrow> string" where
  "show_nat n = (if n < 10 then [digit_char n] else show_nat (n div 10) @ [digit_char (n mod 10)])"
  by pat_completeness auto
termination
  by (relation "measure (\<lambda>n. n)") auto

declare show_nat.simps [simp del]

definition hex_char :: "nat \<Rightarrow> char" where
  "hex_char d = (if d < 10 then char_of (48 + d) else char_of (87 + d))"

text \<open>
  \<^verbatim>\<open>QuoteJSONString\<close>: the quotation mark and the reverse solidus are escaped, the
  control characters below U+0020 are written with their short escapes or as
  \<^verbatim>\<open>\u00XX\<close>, every other character stands for itself.
\<close>

definition escape_char :: "char \<Rightarrow> string" where
  "escape_char c =
     (if c = CHR 0x22 then [CHR 0x5C, CHR 0x22]
      else if c = CHR 0x5C then [CHR 0x5C, CHR 0x5C]
      else if c = CHR 0x08 then [CHR 0x5C, CHR ''b'']
      else if c = CHR 0x0C then [CHR 0x5C, CHR ''f'']
      else if c = CHR 0x0A then [CHR 0x5C, CHR ''n'']
      else if c = CHR 0x0D then [CHR 0x5C, CHR ''r'']
      else if c = CHR 0x09 then [CHR 0x5C, CHR ''t'']
      else if of_char c < (32::nat)
      then [CHR 0x5C, CHR ''u'', CHR ''0'', CHR ''0'',
            hex_char (of_char c div 16), hex_char (of_char c mod 16)]
      else [c])"

definition quote :: "string \<Rightarrow> string" where
  "quote s = CHR 0x22 # concat (map escape_char s) @ [CHR 0x22]"

fun join_with :: "string \<Rightarrow> string list \<Rightarrow> string" where
  "join_with sep [] = []"
| "join_with sep [x] = x"
| "join_with sep (x # y # rest) = x @ sep @ join_with sep (y # rest)"

text \<open>
  \<^verbatim>\<open>SerializeJSONProperty\<close> with the gap of two spaces that
  \<^verbatim>\<open>JSON.stringify(chatData, null, 2)\<close> asks for; \<open>indent\<close> is the current indentation.
\<close>

fun stringify :: "string \<Rightarrow> json \<Rightarrow> string" where
  "stringify indent JNull = ''null''"
| "stringify indent (JBool b) = (if b then ''true'' else ''false'')"
| "stringify indent (JNumber n) = show_nat n"
| "stringify indent (JString s) = quote s"
| "stringify indent (JArray vs) =
     (if vs = [] then ''[]''
      else ''['' @ ''\<newline>'' @ (indent @ ''  '')
             @ join_with ('','' @ ''\<newline>'' @ (indent @ ''  ''))
                 (map (stringify (indent @ ''  '')) vs)
             @ ''\<newline>'' @ indent @ '']'')"
| "stringify indent (JObject ps) =
     (if ps = [] then ''{}''
      else ''{'' @ ''\<newline>'' @ (indent @ ''  '')
             @ join_with ('','' @ ''\<newline>'' @ (indent @ ''  ''))
                 (map (\<lambda>(k, v). quote k @ '': '' @ stringify (indent @ ''  '') v) ps)
             @ ''\<newline>'' @ indent @ ''}'')"

definition JSON_stringify :: "json \<Rightarrow> string" where
  "JSON_stringify v = stringify [] v"

text \<open>The JSON grammar, read from left to right.\<close>

definition is_json_space :: "char \<Rightarrow> bool" where
  "is_json_space c = (c = CHR '' '' \<or> c = CHR 0x0A \<or> c = CHR 0x0D \<or> c = CHR 0x09)"

definition skip_ws :: "string \<Rightarrow> string" where
  "skip_ws s = dropWhile is_json_space s"

definition is_digit :: "char \<Rightarrow> bool" where
  "is_digit c = ((48::nat) \<le> of_char c \<and> of_char c \<le> (57::nat))"

fun read_digits :: "nat \<Rightarrow> string \<Rightarrow> nat \<times> string" where
  "read_digits acc [] = (acc, [])"
| "read_digits acc (c # cs) =
     (if is_digit c then read_digits (10 * acc + (of_char c - 48)) cs else (acc, c # cs))"

definition hex_value :: "char \<Rightarrow> nat option" where
  "hex_value c =
     (let n = (of_char c :: nat)
      in if 48 \<le> n \<and> n \<le> 57 then Some (n - 48)
         else if 97 \<le> n \<and> n \<le> 102 then Some (n - 87)
         else if 65 \<le> n \<and> n \<le> 70 then Some (n - 55)
         else None)"

definition unescape :: "char \<Rightarrow> char option" where
  "unescape e =
     (if e = CHR 0x22 then Some (CHR 0x22)
      else if e = CHR 0x5C then Some (CHR 0x5C)
      else if e = CHR ''/'' then Some (CHR ''/'')
      else if e = CHR ''b'' then Some (CHR 0x08)
      else if e = CHR ''f'' then Some (CHR 0x0C)
      else if e = CHR ''n'' then Some (CHR 0x0A)
      else if e = CHR ''r'' then Some (CHR 0x0D)
      else if e = CHR ''t'' then Some (CHR 0x09)
      else None)"

text \<open>
  The four hexadecimal digits of a \<^verbatim>\<open>\uXXXX\<close> escape; a code unit above U+00FF is
  outside the characters of the model.
\<close>

definition unicode_escape :: "char \<Rightarrow> char \<Rightarrow> char \<Rightarrow> char \<Rightarrow> char option" where
  "unicode_escape a b c d =
     (case (hex_value a, hex_value b, hex_value c, hex_value d) of
        (Some x, Some y, Some z, Some w) \<Rightarrow>
          if x = 0 \<and> y = 0 then Some (char_of (16 * z + w)) else None
      | _ \<Rightarrow> None)"

text \<open>The characters of a string after its opening quotation mark, up to the closing one.\<close>

fun parse_string_body :: "string \<Rightarrow> (string \<times> string) option" where
  "parse_string_body [] = None"
| "parse_string_body (c # cs) =
     (if c = CHR 0x22 then Some ([], cs)
      else if c = CHR 0x5C then
        (case cs of
           [] \<Rightarrow> None
         | e # cs' \<Rightarrow>
             if e = CHR ''u'' then
               (case cs' of
                  a # b # x # y # rest \<Rightarrow>
                    (case unicode_escape a b x y of
                       None \<Rightarrow> None
                     | Some ch \<Rightarrow>
                         (case parse_string_body rest of
                            None \<Rightarrow> None
                          | Some (s, r) \<Rightarrow> Some (ch # s, r)))
                | _ \<Rightarrow> None)
             else
               (case unescape e of
                  None \<Rightarrow> None
                | Some ch \<Rightarrow>
                    (case parse_string_body cs' of
                       None \<Rightarrow> None
                     | Some (s, r) \<Rightarrow> Some (ch # s, r))))
      else if of_char c < (32::nat) then None
      else
        (case parse_string_body cs of
           None \<Rightarrow> None
         | Some (s, r) \<Rightarrow> Some (c # s, r)))"

text \<open>
  Values, the elements of an array after its opening bracket and the members of an
  object after its opening brace. The first argument bounds the depth of the calls; it
  is the length of the text in \<open>JSON_parse\<close>.
\<close>

fun parse_value :: "nat \<Rightarrow> string \<Rightarrow> (json \<times> string) option"
and parse_elements :: "nat \<Rightarrow> string \<Rightarrow> (json list \<times> string) option"
and parse_members :: "nat \<Rightarrow> string \<Rightarrow> ((string \<times> json) list \<times> string) option" where
  "parse_value 0 text = None"
| "parse_value (Suc n) text =
     (case skip_ws text of
        [] \<Rightarrow> None
      | c # cs \<Rightarrow>
          if c = CHR 0x22 then
            (case parse_string_body cs of
               None \<Rightarrow> None
             | Some (s, rest) \<Rightarrow> Some (JString s, rest))
          else if c = CHR ''['' then
            (case skip_ws cs of
               [] \<Rightarrow> None
             | d # ds \<Rightarrow>
                 if d = CHR '']'' then Some (JArray [], ds)
                 else
                   (case parse_elements n cs of
                      None \<Rightarrow> None
                    | Some (vs, rest) \<Rightarrow> Some (JArray vs, rest)))
          else if c = CHR ''{'' then
            (case skip_ws cs of
               [] \<Rightarrow> None
             | d # ds \<Rightarrow>
                 if d = CHR ''}'' then Some (JObject [], ds)
                 else
                   (case parse_members n cs of
                      None \<Rightarrow> None
                    | Some (ps, rest) \<Rightarrow> Some (JObject ps, rest)))
          else if is_digit c then
            (case read_digits 0 (c # cs) of (k, rest) \<Rightarrow> Some (JNumber k, rest))
          else if take 4 (c # cs) = ''true'' then Some (JBool True, drop 4 (c # cs))
          else if take 5 (c # cs) = ''false'' then Some (JBool False, drop 5 (c # cs))
          else if take 4 (c # cs) = ''null'' then Some (JNull, drop 4 (c # cs))
          else None)"
| "parse_elements 0 text = None"
| "parse_elements (Suc n) text =
     (case parse_value n text of
        None \<Rightarrow> None
      | Some (v, rest) \<Rightarrow>
          (case skip_ws rest of
             [] \<Rightarrow> None
           | c # cs \<Rightarrow>
               if c = CHR '','' then
                 (case parse_elements n cs of
                    None \<Rightarrow> None
                  | Some (vs, rest') \<Rightarrow> Some (v # vs, rest'))
               else if c = CHR '']'' then Some ([v], cs)
               else None))"
| "parse_members 0 text = None"
| "parse_members (Suc n) text =
     (case skip_ws text of
        [] \<Rightarrow> None
      | q # after_quote \<Rightarrow>
          if q \<noteq> CHR 0x22 then None
          else
            (case parse_string_body after_quote of
               None \<Rightarrow> None
             | Some (k, after_key) \<Rightarrow>
                 (case skip_ws after_key of
                    [] \<Rightarrow> None
                  | colon # after_colon \<Rightarrow>
                      if colon \<noteq> CHR '':'' then None
                      else
                        (case parse_value n after_colon of
                           None \<Rightarrow> None
                         | Some (v, rest) \<Rightarrow>
                             (case skip_ws rest of
                                [] \<Rightarrow> None
                              | c # cs \<Rightarrow>
                                  if c = CHR '','' then
                                    (case parse_members n cs of
                                       None \<Rightarrow> None
                                     | Some (ps, rest') \<Rightarrow> Some ((k, v) # ps, rest'))
                                  else if c = CHR ''}'' then Some ([(k, v)], cs)
                                  else None)))))"

definition JSON_parse :: "string \<Rightarrow> json option" where
  "JSON_parse text =
     (case parse_value (Suc (length text)) text of
        None \<Rightarrow> None
      | Some (v, rest) \<Rightarrow> if skip_ws rest = [] then Some v else None)"

text \<open>
  The object \<^verbatim>\<open>chatData\<close> as \<^verbatim>\<open>JSON.stringify\<close> sees it: a property whose value is
  \<^verbatim>\<open>undefined\<close> is left out. That holds for \<^verbatim>\<open>environment\<close> and \<^verbatim>\<open>participants\<close> when
  no environment is selected, and for the properties a message was built without.
\<close>

definition type_name :: "message_type \<Rightarrow> string" where
  "type_name t = (case t of System \<Rightarrow> ''system'' | User \<Rightarrow> ''user'' | AI \<Rightarrow> ''ai'')"

definition present :: "string \<Rightarrow> 'a option \<Rightarrow> ('a \<Rightarrow> json) \<Rightarrow> (string \<times> json) list" where
  "present key value to_json = (case value of None \<Rightarrow> [] | Some x \<Rightarrow> [(key, to_json x)])"

definition message_json :: "message \<Rightarrow> json" where
  "message_json m =
     JObject
       ([(''id'', JNumber (msg_id m)), (''type'', JString (type_name (msg_type m)))]
        @ present ''persona'' (msg_persona m) JString
        @ [(''content'', JString (msg_content m)),
           (''timestamp'', JString (msg_timestamp m))]
        @ present ''llm'' (msg_llm m) JString
        @ present ''isRealAI'' (msg_isRealAI m) JBool)"

definition chatData :: "sim_state \<Rightarrow> string \<Rightarrow> json" where
  "chatData s exportedAt =
     JObject
       (present ''environment'' (map_option env_name (selectedEnvironment s)) JString
        @ present ''participants''
            (map_option (\<lambda>e. map (\<lambda>p. JString (persona_name p)) (env_participants e))
               (selectedEnvironment s)) JArray
        @ [(''messages'', JArray (map message_json (localChatHistory s))),
           (''exportedAt'', JString exportedAt)])"

text \<open>
  \<^verbatim>\<open>exportChat\<close>, lines 1093 to 1108: the name of the download and the text of the blob. \<open>exportedAt\<close> is
  the text of \<^verbatim>\<open>new Date().toISOString()\<close>, \<open>now\<close> the reading of \<^verbatim>\<open>Date.now()\<close>. The
  state of the view is not assigned.
\<close>

definition exportChat :: "sim_state \<Rightarrow> string \<Rightarrow> nat \<Rightarrow> string \<times> string" where
  "exportChat s exportedAt now =
     (''loom-simulation-''
        @ (case selectedEnvironment s of None \<Rightarrow> ''undefined'' | Some e \<Rightarrow> env_name e)
        @ ''-'' @ show_nat now @ ''.json'',
      JSON_stringify (chatData s exportedAt))"

text \<open>
  Reading the messages back from a parsed document: the properties of each object of
  the \<^verbatim>\<open>messages\<close> array, a missing property being \<^verbatim>\<open>undefined\<close> as it was in the
  message.
\<close>

definition name_type :: "string \<Rightarrow> message_type option" where
  "name_type t =
     (if t = ''system'' then Some System
      else if t = ''user'' then Some User
      else if t = ''ai'' then Some AI
      else None)"

fun optional_string :: "json option \<Rightarrow> string option option" where
  "optional_string None = Some None"
| "optional_string (Some (JString s)) = Some (Some s)"
| "optional_string (Some v) = None"

fun optional_bool :: "json option \<Rightarrow> bool option option" where
  "optional_bool None = Some None"
| "optional_bool (Some (JBool b)) = Some (Some b)"
| "optional_bool (Some v) = None"

fun json_message :: "json \<Rightarrow> message option" where
  "json_message (JObject ps) =
     (case (map_of ps ''id'', map_of ps ''type'', map_of ps ''content'',
            map_of ps ''timestamp'') of
        (Some (JNumber i), Some (JString t), Some (JString c), Some (JString ts)) \<Rightarrow>
          (case (name_type t, optional_string (map_of ps ''persona''),
                 optional_string (map_of ps ''llm''),
                 optional_bool (map_of ps ''isRealAI'')) of
             (Some ty, Some p, Some l, Some live) \<Rightarrow>
               Some \<lparr> msg_id = i, msg_type = ty, msg_persona = p, msg_content = c,
                      msg_timestamp = ts, msg_llm = l, msg_isRealAI = live \<rparr>
           | _ \<Rightarrow> None)
      | _ \<Rightarrow> None)"
| "json_message v = None"

fun document_messages :: "json \<Rightarrow> message option list" where
  "document_messages (JObject ps) =
     (case map_of ps ''messages'' of
        Some (JArray ms) \<Rightarrow> map json_message ms
      | _ \<Rightarrow> [])"
| "document_messages v = []"

section \<open>Auxiliary notions for the statements\<close>



text \<open>
  Sessions in which one call of \<^verbatim>\<open>handleAutoLoop\<close> is suspended, with the ref set and
  the view running: \<open>timer_pending\<close> when the call waits for the timer before round
  \<open>r\<close>, \<open>paused_after\<close> when it is in the pause after the turn of participant \<open>i\<close> in
  round \<open>r\<close>. \<open>loop_message\<close> is the message of a turn of such a call when the turn
  reads \<open>te\<close> from outside at its start and at its end.
\<close>

definition timer_pending :: "persona list \<Rightarrow> message list \<Rightarrow> nat \<Rightarrow> session \<Rightarrow> bool" where
  "timer_pending participants h r \<sigma> =
     (simulationRunningRef (view \<sigma>) \<and> isSimulationRunning (view \<sigma>)
      \<and> (case calls \<sigma> of
            [l] \<Rightarrow> al_participants l = participants \<and> al_history l = h \<and> al_round l = r
                   \<and> al_at l = Round_timer
          | _ \<Rightarrow> False))"

definition paused_after ::
  "persona list \<Rightarrow> message list \<Rightarrow> nat \<Rightarrow> nat \<Rightarrow> session \<Rightarrow> bool" where
  "paused_after participants h r i \<sigma> =
     (simulationRunningRef (view \<sigma>) \<and> isSimulationRunning (view \<sigma>)
      \<and> (case calls \<sigma> of
            [l] \<Rightarrow> al_participants l = participants \<and> al_history l = h \<and> al_round l = r
                   \<and> al_at l = Pacing i
          | _ \<Rightarrow> False))"

definition loop_message :: "api_keys \<Rightarrow> turn_env \<Rightarrow> message list \<Rightarrow> persona \<Rightarrow> message" where
  "loop_message apiKeys te h persona =
     turn_message te persona (fst (turn_reply apiKeys te h persona))"


text \<open>The events whose handlers replace the transcript: Start Simulation and Back.\<close>

fun clears_transcript :: "ui_event \<Rightarrow> bool" where
  "clears_transcript (Start_simulation environment now time) = True"
| "clears_transcript Click_back = True"
| "clears_transcript e = False"



section \<open>Concrete inputs\<close>

definition ada :: persona where
  "ada = \<lparr> persona_id = 1, persona_name = ''Ada'', persona_llm = ''ChatGPT (OpenAI)'',
           persona_role = ''a test pilot'',
           persona_traits =
             Some [\<lparr> trait_name = ''Brave'', trait_category = ''Emotional'',
                     trait_intensity = Some ''Strong'' \<rparr>,
                   \<lparr> trait_name = ''Curious'', trait_category = ''Cognitive'',
                     trait_intensity = None \<rparr>],
           persona_knowledgeHub = Some ''Flew gliders for ten years.'',
           persona_wordLimit = None \<rparr>"

definition bob :: persona where
  "bob = \<lparr> persona_id = 2, persona_name = ''Bob'', persona_llm = ''Gemini (Google)'',
           persona_role = ''a mediator'', persona_traits = Some [],
           persona_knowledgeHub = None, persona_wordLimit = None \<rparr>"

definition round_table :: "string \<Rightarrow> nat \<Rightarrow> environment" where
  "round_table mode limit =
     \<lparr> env_id = 7, env_name = ''Round table'', env_description = [],
       env_participants = [ada, bob], env_interactionMode = mode, env_wordLimit = limit,
       env_linkedEnvironment = [], env_startingPrompt = ''Discuss the launch.'',
       env_humanModerator = False \<rparr>"

definition both_keys :: api_keys where
  "both_keys = \<lparr> key_openai = ''sk-test'', key_claude = ''sk-ant-test'' \<rparr>"

definition no_keys :: api_keys where
  "no_keys = \<lparr> key_openai = [], key_claude = [] \<rparr>"

definition provider_rejects :: turn_env where
  "provider_rejects =
     \<lparr> te_fetch = (\<lambda>req. Not_ok (Some ''Incorrect API key provided'')), te_rnd = 2,
       te_now = 1700000000000, te_time = ''10:15:00 AM'' \<rparr>"

definition provider_answers :: turn_env where
  "provider_answers =
     \<lparr> te_fetch = (\<lambda>req. Is_ok ''We should test the valve first.''), te_rnd = 2,
       te_now = 1700000000000, te_time = ''10:15:00 AM'' \<rparr>"

definition started_state :: sim_state where
  "started_state =
     run_effects (startSimulation (round_table ''auto-loop'' 200) 1 ''10:00:00 AM'' initial_state)"

definition started_session :: session where
  "started_session =
     fire no_keys (Start_simulation (round_table ''auto-loop'' 200) 1 ''10:00:00 AM'')
       initial_session"



definition speaking_session :: session where
  "speaking_session =
     fire both_keys (Click_speak ada provider_answers)
       (fire both_keys (Start_simulation (round_table ''manual'' 200) 1 ''10:00:00 AM'')
          initial_session)"

definition exported_state :: sim_state where
  "exported_state = simulateAIResponse no_keys provider_answers [] bob started_state"

section \<open>The prompt builder\<close>










text \<open>
  Outside the well-formed personas the lookup \<^verbatim>\<open>intensityDesc[trait.intensity]\<close> also
  finds what the object literal inherits: a string that is neither one of the three
  intensities nor the name of an inherited property gives "moderately", the name of an
  inherited property gives the text of that property.
\<close>

lemma intensity_adverb_other:
  "k \<notin> fst ` set intensityDesc \<Longrightarrow> k \<notin> fst ` set object_prototype
     \<Longrightarrow> intensity_adverb (Some k) = ''moderately''"
proof -
  assume "k \<notin> fst ` set intensityDesc" and "k \<notin> fst ` set object_prototype"
  then have "map_of intensityDesc k = None" and "map_of object_prototype k = None"
    by (simp_all only: map_of_eq_None_iff not_False_eq_True)
  then show ?thesis by (simp add: intensity_adverb_def)
qed

lemma intensity_adverb_inherited:
  "intensity_adverb (Some ''constructor'') = ''function Object() { [native code] }''"
  by (simp add: intensity_adverb_def intensityDesc_def object_prototype_def)

section \<open>The adapters\<close>

lemma callOpenAI_with_key:
  "key_openai apiKeys \<noteq> [] \<Longrightarrow>
   callOpenAI apiKeys fetch messages persona =
     (case fetch (openai_request apiKeys messages persona) of
        Throws m \<Rightarrow> Inl (Error m)
      | Not_ok m \<Rightarrow> Inl (Error (''OpenAI API Error: '' @ upstream_message m))
      | Is_ok text \<Rightarrow> Inr text,
      [openai_request apiKeys messages persona])"
  by (simp add: callOpenAI_def Let_def)

lemma callClaude_with_key:
  "key_claude apiKeys \<noteq> [] \<Longrightarrow>
   callClaude apiKeys fetch messages persona =
     (case fetch (claude_request apiKeys messages persona) of
        Throws m \<Rightarrow> Inl (Error m)
      | Not_ok m \<Rightarrow> Inl (Error (''Claude API Error: '' @ upstream_message m))
      | Is_ok text \<Rightarrow> Inr text,
      [claude_request apiKeys messages persona])"
  by (simp add: callClaude_def Let_def)

lemma request_max_tokens:
  "req_max_tokens (openai_request apiKeys messages persona) = max_tokens persona"
  "req_max_tokens (claude_request apiKeys messages persona) = max_tokens persona"
  by (simp_all add: openai_request_def claude_request_def)

lemma max_tokens_default:
  "persona_wordLimit persona = None \<Longrightarrow> max_tokens persona = 200"
  by (simp add: max_tokens_def)

lemma callRealAI_never_throws:
  "\<exists>text. fst (callRealAI apiKeys fetch rnd persona history) = Inr text"
  by (auto simp: callRealAI_def split: prod.splits sum.splits error.splits)

lemma callRealAI_openai_rejected:
  assumes "key_openai apiKeys \<noteq> []" and "persona_llm persona = ''ChatGPT (OpenAI)''"
      and "fetch (openai_request apiKeys h persona) = Not_ok m"
  shows "callRealAI apiKeys fetch rnd persona h =
     (Inr (''['' @ persona_name persona @ '']: ''
             @ (''OpenAI API Error: '' @ upstream_message m)
             @ ''. Falling back to simulated response: '' @ getSimulatedResponse rnd persona),
      [openai_request apiKeys h persona])"
  using assms by (simp add: callRealAI_def callOpenAI_with_key)

lemma callRealAI_openai_answered:
  assumes "key_openai apiKeys \<noteq> []" and "persona_llm persona = ''ChatGPT (OpenAI)''"
      and "fetch (openai_request apiKeys h persona) = Is_ok text"
  shows "callRealAI apiKeys fetch rnd persona h = (Inr text, [openai_request apiKeys h persona])"
  using assms by (simp add: callRealAI_def callOpenAI_with_key)

text \<open>
  Claim C9. When the key of the provider is not configured (\<^verbatim>\<open>apiKeys.openai\<close>,
  \<^verbatim>\<open>apiKeys.claude\<close> empty), \<^verbatim>\<open>callOpenAI\<close> and \<^verbatim>\<open>callClaude\<close> throw the
  "API key not configured" error and hand no request to \<^verbatim>\<open>fetch\<close>.
\<close>

theorem missing_credential_fails_before_fetch:
  "(key_openai apiKeys = [] \<longrightarrow>
      callOpenAI apiKeys fetch messages persona
        = (Inl (Error ''OpenAI API key not configured''), []))
   \<and> (key_claude apiKeys = [] \<longrightarrow>
      callClaude apiKeys fetch messages persona
        = (Inl (Error ''Claude API key not configured''), []))"
proof (intro conjI impI)
  assume "key_openai apiKeys = []"
  then show "callOpenAI apiKeys fetch messages persona
      = (Inl (Error ''OpenAI API key not configured''), [])"
    by (simp add: callOpenAI_def)
next
  assume "key_claude apiKeys = []"
  then show "callClaude apiKeys fetch messages persona
      = (Inl (Error ''Claude API key not configured''), [])"
    by (simp add: callClaude_def)
qed

theorem missing_credential_fails_before_fetch_witness:
  "key_openai no_keys = [] \<and> key_claude no_keys = []
   \<and> callOpenAI no_keys (te_fetch provider_answers) [] ada
        = (Inl (Error ''OpenAI API key not configured''), [])
   \<and> callClaude no_keys (te_fetch provider_answers) [] ada
        = (Inl (Error ''Claude API key not configured''), [])"
  using missing_credential_fails_before_fetch
          [of no_keys "te_fetch provider_answers" "[]" ada]
  by (simp add: no_keys_def)

section \<open>One turn\<close>

lemma turn_reply_openai:
  assumes "key_openai apiKeys \<noteq> []" and "persona_llm persona = ''ChatGPT (OpenAI)''"
  shows "turn_reply apiKeys te h persona =
     ((fst (callRealAI apiKeys (te_fetch te) (te_rnd te) persona
              (filter (\<lambda>msg. msg_type msg \<noteq> System) h)), True),
      snd (callRealAI apiKeys (te_fetch te) (te_rnd te) persona
              (filter (\<lambda>msg. msg_type msg \<noteq> System) h)))"
  using assms by (simp add: turn_reply_def split: prod.splits)

lemma turn_reply_other_model:
  assumes "persona_llm persona \<noteq> ''ChatGPT (OpenAI)''"
      and "persona_llm persona \<noteq> ''Claude (Anthropic)''"
  shows "turn_reply apiKeys te h persona
           = ((Inr (getSimulatedResponse (te_rnd te) persona), False), [])"
  using assms by (simp add: turn_reply_def)

lemma turn_reply_never_throws:
  "\<exists>text live. fst (turn_reply apiKeys te h persona) = (Inr text, live)"
proof -
  obtain answer where
    "fst (callRealAI apiKeys (te_fetch te) (te_rnd te) persona
            (filter (\<lambda>msg. msg_type msg \<noteq> System) h)) = Inr answer"
    using callRealAI_never_throws by blast
  then show ?thesis
    by (auto simp: turn_reply_def Let_def split: prod.splits)
qed

text \<open>
  A turn that goes to a provider is tagged live whatever the provider did.
\<close>

lemma adapter_turn_is_tagged_live:
  assumes "key_openai apiKeys \<noteq> [] \<and> persona_llm persona = ''ChatGPT (OpenAI)''
           \<or> key_claude apiKeys \<noteq> [] \<and> persona_llm persona = ''Claude (Anthropic)''"
  shows "msg_isRealAI (turn_message te persona (fst (turn_reply apiKeys te h persona)))
           = Some True"
proof -
  obtain answer where
    "fst (callRealAI apiKeys (te_fetch te) (te_rnd te) persona
            (filter (\<lambda>msg. msg_type msg \<noteq> System) h)) = Inr answer"
    using callRealAI_never_throws by blast
  with assms show ?thesis
    by (auto simp: turn_reply_def turn_message_def Let_def split: prod.splits)
qed

lemma turn_message_returned:
  "turn_message te persona (Inr text, live) =
     \<lparr> msg_id = te_now te, msg_type = AI, msg_persona = Some (persona_name persona),
       msg_content = text, msg_timestamp = te_time te,
       msg_llm = Some (persona_llm persona), msg_isRealAI = Some live \<rparr>"
  by (simp add: turn_message_def)

lemma simulateAIResponse_history:
  "localChatHistory (simulateAIResponse apiKeys te h persona s) =
     localChatHistory s @ [turn_message te persona (fst (turn_reply apiKeys te h persona))]"
  by (simp add: simulateAIResponse_def simulateAIResponse_resume_def
        simulateAIResponse_start_def split: prod.splits)

lemma simulateAIResponse_requests:
  "sent_requests (simulateAIResponse apiKeys te h persona s) =
     sent_requests s @ snd (turn_reply apiKeys te h persona)"
  by (simp add: simulateAIResponse_def simulateAIResponse_resume_def
        simulateAIResponse_start_def split: prod.splits)

lemma ada_facts:
  "persona_llm ada = ''ChatGPT (OpenAI)''" "persona_name ada = ''Ada''"
  "persona_wordLimit ada = None"
  by (simp_all add: ada_def)

lemma bob_facts:
  "persona_llm bob = ''Gemini (Google)''" "persona_name bob = ''Bob''"
  "persona_role bob = ''a mediator''"
  by (simp_all add: bob_def)

lemma both_keys_facts: "key_openai both_keys \<noteq> []" "key_claude both_keys \<noteq> []"
  by (simp_all add: both_keys_def)

text \<open>
  Claim C2: no failure of an adapter leaves the turn as an exception, the transcript
  grows by exactly one message per turn, and the message is tagged \<^verbatim>\<open>isRealAI = false\<close>
  when the adapter call failed and \<^verbatim>\<open>true\<close> when it succeeded. The tag of a failed
  call is where the code differs. With the OpenAI key configured and the provider answering
  with a status that is not ok, \<^verbatim>\<open>callOpenAI\<close> throws; \<^verbatim>\<open>callRealAI\<close> catches the error
  and returns a text, so \<^verbatim>\<open>simulateAIResponse\<close> goes on to \<^verbatim>\<open>isRealAI = true\<close>: the one
  message the turn appends is tagged live.
\<close>

theorem failed_call_is_tagged_live:
  "fst (callOpenAI both_keys (te_fetch provider_rejects) [] ada)
     = Inl (Error ''OpenAI API Error: Incorrect API key provided'')
   \<and> map msg_isRealAI
        (localChatHistory (handleManualTurn both_keys provider_rejects ada initial_state))
     = [Some True]"
proof -
  have rejected: "te_fetch provider_rejects (openai_request both_keys [] ada)
          = Not_ok (Some ''Incorrect API key provided'')"
    by (simp add: provider_rejects_def)
  then have "fst (callOpenAI both_keys (te_fetch provider_rejects) [] ada)
     = Inl (Error ''OpenAI API Error: Incorrect API key provided'')"
    by (simp add: callOpenAI_with_key both_keys_facts upstream_message_def)
  moreover from rejected have "map msg_isRealAI
        (localChatHistory (handleManualTurn both_keys provider_rejects ada initial_state))
     = [Some True]"
    by (simp add: handleManualTurn_def initial_state_def simulateAIResponse_history
          turn_reply_openai both_keys_facts ada_facts callRealAI_openai_rejected
          turn_message_returned)
  ultimately show ?thesis by blast
qed

text \<open>
  Claim C4: the response budget sent by \<^verbatim>\<open>callOpenAI\<close> and \<^verbatim>\<open>callClaude\<close> derives from
  the word limit of the environment and is 200 when that is unset. The code differs:
  the response budget of a request is
  \<^verbatim>\<open>persona.wordLimit || 200\<close>; the word limit of the environment is not read. For
  \<open>ada\<close>, who like every persona of the authoring form has no \<^verbatim>\<open>wordLimit\<close>, the
  request carries 200 whether the environment limits responses to 50 or to 500 words.
\<close>

theorem max_tokens_ignores_environment_wordLimit:
  "env_wordLimit (round_table ''manual'' 50) = 50
   \<and> map req_max_tokens
        (sent_requests
           (handleManualTurn both_keys provider_answers ada
              (startSimulation (round_table ''manual'' 50) 1 ''10:00:00 AM'' initial_state)))
       = [200]
   \<and> env_wordLimit (round_table ''manual'' 500) = 500
   \<and> map req_max_tokens
        (sent_requests
           (handleManualTurn both_keys provider_answers ada
              (startSimulation (round_table ''manual'' 500) 1 ''10:00:00 AM'' initial_state)))
       = [200]"
proof -
  have "map req_max_tokens
        (sent_requests
           (handleManualTurn both_keys provider_answers ada
              (startSimulation (round_table ''manual'' n) 1 ''10:00:00 AM'' initial_state)))
       = [200]" for n
    by (simp add: handleManualTurn_def startSimulation_def initial_state_def
          simulateAIResponse_requests turn_reply_openai both_keys_facts ada_facts
          callRealAI_def callOpenAI_with_key request_max_tokens max_tokens_default
          split: fetch_outcome.splits)
  then show ?thesis by (simp add: round_table_def)
qed

lemma responses_length: "length (responses persona) = 5"
  by (simp add: responses_def)


lemma getSimulatedResponse_names_persona:
  assumes "rnd mod 5 = 0"
  shows "str_includes (getSimulatedResponse rnd persona) (persona_name persona)"
proof -
  have "getSimulatedResponse rnd persona =
      ''As '' @ persona_name persona
        @ ('', given my role as '' @ persona_role persona
            @ '', I think we should approach this systematically. My experience tells me that this situation requires careful consideration of all stakeholders involved.'')"
    using assms by (simp add: getSimulatedResponse_def responses_length) (simp add: responses_def)
  then show ?thesis
    unfolding str_includes_def by (metis sublist_appendI)
qed

lemma getSimulatedResponse_names_role:
  assumes "rnd mod 5 \<le> 1"
  shows "str_includes (getSimulatedResponse rnd persona) (persona_role persona)"
proof -
  from assms consider "rnd mod 5 = 0" | "rnd mod 5 = 1" by linarith
  then show ?thesis
  proof cases
    case 1
    then have "getSimulatedResponse rnd persona =
        (''As '' @ persona_name persona @ '', given my role as '') @ persona_role persona
          @ '', I think we should approach this systematically. My experience tells me that this situation requires careful consideration of all stakeholders involved.''"
      by (simp add: getSimulatedResponse_def responses_length) (simp add: responses_def)
    then show ?thesis
      unfolding str_includes_def by (metis sublist_appendI)
  next
    case 2
    then have "getSimulatedResponse rnd persona =
        ''Speaking from my perspective as '' @ persona_role persona
          @ '', I'd like to challenge some assumptions here. We're looking at this from a narrow perspective, and I believe we need to expand our thinking beyond conventional solutions.''"
      by (simp add: getSimulatedResponse_def responses_length) (simp add: responses_def)
    then show ?thesis
      unfolding str_includes_def by (metis sublist_appendI)
  qed
qed



section \<open>The auto-loop\<close>

text \<open>
  The three polls. A piece that finds the ref cleared starts no turn: before a round
  \<^verbatim>\<open>runNextTurn\<close> returns at once; before a turn and after a turn the loop is left, and
  the code after it clears \<^verbatim>\<open>isSimulationRunning\<close> and sets no timer.
\<close>

lemma after_for_cancelled:
  "\<not> simulationRunningRef s
     \<Longrightarrow> after_for participants h r s = (s\<lparr>isSimulationRunning := False\<rparr>, None)"
  by (simp add: after_for_def)


lemma runNextTurn_cancelled:
  "\<not> simulationRunningRef s \<Longrightarrow> runNextTurn apiKeys te participants h r s = (s, None)"
  by (simp add: runNextTurn_def)

lemma loop_resumes_cancelled:
  assumes "\<not> simulationRunningRef s"
  shows "al_at l = Pacing i
           \<Longrightarrow> loop_resumes apiKeys te l s = (s\<lparr>isSimulationRunning := False\<rparr>, None)"
    and "al_at l = Round_timer \<Longrightarrow> loop_resumes apiKeys te l s = (s, None)"
  using assms by (simp_all add: loop_resumes_def after_for_cancelled runNextTurn_cancelled)

text \<open>
  With the ref set the loop goes on: the next participant's turn starts, and after the
  last participant the timer of the next round is set, unless the round was the fifth.
\<close>

lemma for_participants_starts_turn:
  assumes "simulationRunningRef s" and "i < length participants"
  shows "for_participants apiKeys te participants h r i s =
           (simulateAIResponse_start (snd (turn_reply apiKeys te h (participants ! i))) s,
            Some \<lparr> al_participants = participants, al_history = h, al_round = r,
                   al_at = Awaiting_reply i
                     \<lparr> pt_persona = participants ! i,
                       pt_reply = fst (turn_reply apiKeys te h (participants ! i)),
                       pt_env = te \<rparr> \<rparr>)"
  using assms by (simp add: for_participants_def Let_def split: prod.splits)

lemma for_participants_round_over:
  assumes "simulationRunningRef s" and "length participants \<le> i"
  shows "for_participants apiKeys te participants h r i s =
           (if Suc r < maxRounds
            then (s, Some \<lparr> al_participants = participants, al_history = h,
                            al_round = Suc r, al_at = Round_timer \<rparr>)
            else (s\<lparr>isSimulationRunning := False\<rparr>, None))"
  using assms by (simp add: for_participants_def after_for_def Let_def)

text \<open>
  What the pieces do to the transcript, to the requests sent and to the count of turns
  started.
\<close>

lemma after_for_view:
  "fst (after_for participants h r s) = s
   \<or> fst (after_for participants h r s) = s\<lparr>isSimulationRunning := False\<rparr>"
  by (simp add: after_for_def Let_def)

lemma after_for_fields:
  "localChatHistory (fst (after_for participants h r s)) = localChatHistory s"
  "sent_requests (fst (after_for participants h r s)) = sent_requests s"
  "turns_started (fst (after_for participants h r s)) = turns_started s"
  "turns_finished (fst (after_for participants h r s)) = turns_finished s"
  by (simp_all add: after_for_def Let_def)

lemma for_participants_history:
  "localChatHistory (fst (for_participants apiKeys te participants h r i s))
     = localChatHistory s"
  by (simp add: for_participants_def after_for_fields simulateAIResponse_start_def Let_def
        split: prod.splits)

lemma runNextTurn_history:
  "localChatHistory (fst (runNextTurn apiKeys te participants h r s)) = localChatHistory s"
  by (simp add: runNextTurn_def for_participants_history)

lemma handleAutoLoop_history:
  "localChatHistory (fst (handleAutoLoop apiKeys te s)) = localChatHistory s"
  by (simp add: handleAutoLoop_def runNextTurn_history split: option.splits)

lemma loop_resumes_history:
  "localChatHistory (fst (loop_resumes apiKeys te l s)) =
     (case al_at l of
        Awaiting_reply i pt \<Rightarrow>
          localChatHistory s
            @ [turn_message ((pt_env pt)\<lparr> te_now := te_now te, te_time := te_time te \<rparr>)
                 (pt_persona pt) (pt_reply pt)]
      | Pacing i \<Rightarrow> localChatHistory s
      | Round_timer \<Rightarrow> localChatHistory s)"
  by (simp add: loop_resumes_def after_for_fields for_participants_history
        runNextTurn_history simulateAIResponse_resume_def split: suspension.splits)

text \<open>
  A click on Auto-Run in a state whose ref is not set, as the last effect left it while
  the button read Auto-Run: \<^verbatim>\<open>runNextTurn\<close> returns at its first line, and the state
  update is all that happens.
\<close>

lemma handleAutoLoop_stale_ref:
  assumes "selectedEnvironment s = Some e" and "\<not> isProcessing s"
      and "\<not> simulationRunningRef s"
  shows "handleAutoLoop apiKeys te s = (s\<lparr>isSimulationRunning := True\<rparr>, None)"
  using assms by (simp add: handleAutoLoop_def runNextTurn_cancelled)

section \<open>Sessions\<close>

lemma click_auto_run_stale_ref:
  assumes "selectedEnvironment (view \<sigma>) = Some e"
      and "\<not> simulationRunningRef (view \<sigma>)" and "\<not> isSimulationRunning (view \<sigma>)"
  shows "click_auto_run apiKeys te \<sigma> =
           (if isProcessing (view \<sigma>) then \<sigma>
            else \<sigma>\<lparr> view := (view \<sigma>)\<lparr> isSimulationRunning := True,
                                       simulationRunningRef := True \<rparr> \<rparr>)"
proof (cases "isProcessing (view \<sigma>)")
  case True
  then have "handleAutoLoop apiKeys te (view \<sigma>) = (view \<sigma>, None)"
    using assms(1) by (simp add: handleAutoLoop_def)
  moreover have "run_effects (view \<sigma>) = view \<sigma>"
    using assms(2,3) by (simp add: run_effects_def)
  ultimately show ?thesis using True by (simp add: click_auto_run_def)
next
  case False
  then have "handleAutoLoop apiKeys te (view \<sigma>)
      = ((view \<sigma>)\<lparr>isSimulationRunning := True\<rparr>, None)"
    using assms(1,2) by (intro handleAutoLoop_stale_ref) simp_all
  then show ?thesis using False by (simp add: click_auto_run_def run_effects_def)
qed

text \<open>
  What holds in every session that the controls of the view allow: the ref is what the
  last effect made it; no call of \<^verbatim>\<open>handleAutoLoop\<close> is suspended; every turn that
  has started and not finished is a pending one, and there is at most one.
\<close>

lemma reachable_invariant:
  assumes "reachable apiKeys \<sigma>"
  shows "simulationRunningRef (view \<sigma>) = isSimulationRunning (view \<sigma>)
         \<and> calls \<sigma> = []
         \<and> turns_started (view \<sigma>) = turns_finished (view \<sigma>) + length (pending \<sigma>)
         \<and> length (pending \<sigma>) \<le> 1
         \<and> (pending \<sigma> \<noteq> [] \<longrightarrow> isProcessing (view \<sigma>))
         \<and> (isSimulationRunning (view \<sigma>) \<longrightarrow>
               pending \<sigma> = []
               \<and> (\<exists>e. selectedEnvironment (view \<sigma>) = Some e
                        \<and> env_interactionMode e = ''auto-loop''))"
  using assms
proof (induction rule: reachable.induct)
  case reachable_initial
  show ?case by (simp add: initial_session_def initial_state_def)
next
  case (reachable_fire \<sigma> e)
  note inv = reachable_fire.IH
  note en = reachable_fire.hyps(2)
  show ?case
  proof (cases e)
    case (Start_simulation environment now time)
    with en inv show ?thesis
      by (auto simp: run_effects_def startSimulation_def)
  next
    case (Click_auto_run te)
    with en obtain env where env: "selectedEnvironment (view \<sigma>) = Some env"
      "env_interactionMode env = ''auto-loop''" "\<not> isSimulationRunning (view \<sigma>)"
      by (auto split: option.splits)
    then have ref: "\<not> simulationRunningRef (view \<sigma>)" using inv by simp
    show ?thesis
    proof (cases "isProcessing (view \<sigma>)")
      case True
      with click_auto_run_stale_ref [OF env(1) ref env(3)] inv Click_auto_run
      show ?thesis by simp
    next
      case False
      then have idle: "pending \<sigma> = []" using inv by blast
      from False click_auto_run_stale_ref [OF env(1) ref env(3)] inv Click_auto_run env idle
      show ?thesis by simp
    qed
  next
    case Click_stop
    with en inv show ?thesis
      by (auto simp: run_effects_def stopSimulation_def split: option.splits)
  next
    case (Click_speak persona te)
    with en obtain env where env: "selectedEnvironment (view \<sigma>) = Some env"
      "env_interactionMode env = ''manual''" "\<not> isProcessing (view \<sigma>)"
      by (auto split: option.splits)
    then have idle: "pending \<sigma> = []" and stopped: "\<not> isSimulationRunning (view \<sigma>)"
      using inv by auto
    with inv env Click_speak show ?thesis
      by (simp add: handleManualTurn_start_def simulateAIResponse_start_def
            split: prod.splits)
  next
    case (Type_message x)
    with inv show ?thesis by simp
  next
    case (Send_message now time)
    with inv show ?thesis by (simp add: handleUserMessage_def)
  next
    case Click_export
    with inv show ?thesis by simp
  next
    case Click_back
    with inv show ?thesis by (simp add: run_effects_def handleBack_def)
  next
    case (Reply_arrives k now time)
    with en have k: "k < length (pending \<sigma>)" by simp
    with inv have one: "length (pending \<sigma>) = 1" "k = 0" by linarith+
    then have "take k (pending \<sigma>) @ drop (Suc k) (pending \<sigma>) = []" by simp
    with inv k one Reply_arrives show ?thesis
      by (auto simp: reply_arrives_def simulateAIResponse_resume_def Let_def)
  next
    case (Loop_resumes k te)
    with en inv show ?thesis by simp
  qed
qed



lemma started_state_fields:
  "selectedEnvironment started_state = Some (round_table ''auto-loop'' 200)"
  "\<not> isProcessing started_state" "\<not> simulationRunningRef started_state"
  "\<not> isSimulationRunning started_state" "turns_started started_state = 0"
  "sent_requests started_state = []"
  "map msg_persona (localChatHistory started_state) = [None]"
  "map msg_type (localChatHistory started_state) = [System]"
  by (simp_all add: started_state_def run_effects_def startSimulation_def initial_state_def
        round_table_def)

lemma started_session_fields:
  "view started_session = started_state" "pending started_session = []"
  "calls started_session = []"
  by (simp_all add: started_session_def started_state_def initial_session_def)








text \<open>
  Claim C1: an uninterrupted run of the auto-loop over N participants appends N times
  five agent messages, in the stored order of the participants, round after round. The
  code differs. In the session that has just started the environment
  \<open>round_table\<close> (two participants, auto-loop mode) the Auto-Run button is shown; the
  click sets \<^verbatim>\<open>isSimulationRunning\<close>, but \<^verbatim>\<open>runNextTurn\<close> reads
  \<^verbatim>\<open>simulationRunningRef.current\<close> before the effect has copied the new state into it
  and returns: no turn is started, the transcript stays the seed message, and nothing
  is left suspended that could take a turn later.
\<close>

theorem auto_run_click_takes_no_turn:
  "enabled (Click_auto_run provider_answers) started_session
   \<and> length (env_participants (round_table ''auto-loop'' 200)) = 2 \<and> maxRounds = 5
   \<and> map msg_type (localChatHistory (view started_session)) = [System]
   \<and> localChatHistory (view (fire no_keys (Click_auto_run provider_answers) started_session))
       = localChatHistory (view started_session)
   \<and> turns_started (view (fire no_keys (Click_auto_run provider_answers) started_session)) = 0
   \<and> isSimulationRunning
        (view (fire no_keys (Click_auto_run provider_answers) started_session))
   \<and> calls (fire no_keys (Click_auto_run provider_answers) started_session) = []
   \<and> pending (fire no_keys (Click_auto_run provider_answers) started_session) = []"
proof -
  have click: "handleAutoLoop no_keys provider_answers started_state
      = (started_state\<lparr>isSimulationRunning := True\<rparr>, None)"
    by (rule handleAutoLoop_stale_ref) (simp_all add: started_state_fields)
  show ?thesis
    by (simp add: click_auto_run_def started_session_fields click started_state_fields
          run_effects_def round_table_def maxRounds_def)
qed




text \<open>
  Claim C6. While \<^verbatim>\<open>isProcessing\<close> is set, \<^verbatim>\<open>handleManualTurn\<close> changes nothing: the
  transcript, the requests sent and the count of turns started are as before, whether
  the turn is taken as a whole or up to its \<^verbatim>\<open>await\<close>. And in every session that the
  controls of the view allow, at most one turn has been started and not finished.
\<close>

theorem manual_turn_mutual_exclusion:
  "(isProcessing s \<longrightarrow> handleManualTurn apiKeys te persona s = s)
   \<and> (isProcessing (view \<sigma>) \<longrightarrow> fire apiKeys (Click_speak persona te) \<sigma> = \<sigma>)
   \<and> (reachable apiKeys \<sigma> \<longrightarrow>
         turns_started (view \<sigma>) = turns_finished (view \<sigma>) + length (pending \<sigma>)
         \<and> length (pending \<sigma>) \<le> 1
         \<and> turns_started (view \<sigma>) \<le> Suc (turns_finished (view \<sigma>)))"
proof (intro conjI impI)
  assume "isProcessing s"
  then show "handleManualTurn apiKeys te persona s = s"
    by (simp add: handleManualTurn_def)
next
  assume "isProcessing (view \<sigma>)"
  then show "fire apiKeys (Click_speak persona te) \<sigma> = \<sigma>"
    by (simp add: handleManualTurn_start_def)
next
  assume r: "reachable apiKeys \<sigma>"
  from reachable_invariant [OF r]
  show "turns_started (view \<sigma>) = turns_finished (view \<sigma>) + length (pending \<sigma>)"
    by blast
  from reachable_invariant [OF r] show "length (pending \<sigma>) \<le> 1" by blast
  from reachable_invariant [OF r]
  show "turns_started (view \<sigma>) \<le> Suc (turns_finished (view \<sigma>))" by linarith
qed

lemma speaking_session_reachable: "reachable both_keys speaking_session"
proof -
  let ?start = "Start_simulation (round_table ''manual'' 200) 1 ''10:00:00 AM''"
  have "enabled ?start initial_session"
    by (simp add: initial_session_def initial_state_def)
  then have 1: "reachable both_keys (fire both_keys ?start initial_session)"
    by (rule reachable_fire [OF reachable_initial])
  have "enabled (Click_speak ada provider_answers) (fire both_keys ?start initial_session)"
    by (simp add: initial_session_def initial_state_def run_effects_def startSimulation_def
          round_table_def)
  with 1 show ?thesis
    unfolding speaking_session_def by (rule reachable_fire)
qed

lemma speaking_session_fields:
  "isProcessing (view speaking_session)"
  "length (pending speaking_session) = 1"
  "map msg_type (localChatHistory (view speaking_session)) = [System]"
  by (simp_all add: speaking_session_def handleManualTurn_start_def
        simulateAIResponse_start_def initial_session_def initial_state_def run_effects_def
        startSimulation_def round_table_def split: prod.splits)

theorem manual_turn_mutual_exclusion_witness:
  "reachable both_keys speaking_session \<and> isProcessing (view speaking_session)
   \<and> handleManualTurn both_keys provider_answers bob (view speaking_session)
       = view speaking_session
   \<and> fire both_keys (Click_speak bob provider_answers) speaking_session = speaking_session
   \<and> length (pending speaking_session) = 1
   \<and> turns_started (view speaking_session) \<le> Suc (turns_finished (view speaking_session))"
  using manual_turn_mutual_exclusion
          [of "view speaking_session" both_keys provider_answers bob speaking_session]
        speaking_session_reachable speaking_session_fields
  by simp

text \<open>
  What an event does to the transcript of any session, reachable or not.
\<close>

lemma fire_history:
  assumes "\<not> clears_transcript e"
  shows "localChatHistory (view (fire apiKeys e \<sigma>)) = localChatHistory (view \<sigma>)
         \<or> (\<exists>m. localChatHistory (view (fire apiKeys e \<sigma>)) = localChatHistory (view \<sigma>) @ [m])"
proof (cases e)
  case (Start_simulation environment now time)
  with assms show ?thesis by simp
next
  case (Click_auto_run te)
  have "localChatHistory (view (click_auto_run apiKeys te \<sigma>))
      = localChatHistory (fst (handleAutoLoop apiKeys te (view \<sigma>)))"
    by (simp add: click_auto_run_def run_effects_def split: prod.splits)
  with Click_auto_run show ?thesis by (simp add: handleAutoLoop_history)
next
  case Click_stop
  then show ?thesis by (simp add: run_effects_def stopSimulation_def)
next
  case (Click_speak persona te)
  then show ?thesis
    by (simp add: handleManualTurn_start_def simulateAIResponse_start_def
          split: prod.splits)
next
  case (Type_message x)
  then show ?thesis by simp
next
  case (Send_message now time)
  then show ?thesis by (simp add: handleUserMessage_def)
next
  case Click_export
  then show ?thesis by simp
next
  case Click_back
  with assms show ?thesis by simp
next
  case (Reply_arrives k now time)
  then show ?thesis
    by (simp add: reply_arrives_def simulateAIResponse_resume_def Let_def)
next
  case (Loop_resumes k te)
  show ?thesis
  proof (cases "k < length (calls \<sigma>)")
    case False
    with Loop_resumes show ?thesis by (simp add: loop_resumes_at_def)
  next
    case True
    then have "localChatHistory (view (loop_resumes_at apiKeys k te \<sigma>))
        = localChatHistory (fst (loop_resumes apiKeys te (calls \<sigma> ! k) (view \<sigma>)))"
      by (simp add: loop_resumes_at_def run_effects_def split: prod.splits)
    with Loop_resumes show ?thesis
      by (simp add: loop_resumes_history split: suspension.splits)
  qed
qed

lemma fire_all_prefix:
  assumes "\<forall>e\<in>set es. \<not> clears_transcript e"
  shows "prefix (localChatHistory (view \<sigma>)) (localChatHistory (view (fire_all apiKeys es \<sigma>)))"
  using assms
proof (induction es arbitrary: \<sigma>)
  case Nil
  show ?case by (simp add: fire_all_def)
next
  case (Cons e es)
  then have step: "prefix (localChatHistory (view \<sigma>))
      (localChatHistory (view (fire apiKeys e \<sigma>)))"
    using fire_history [of e apiKeys \<sigma>] by auto
  from Cons have "prefix (localChatHistory (view (fire apiKeys e \<sigma>)))
      (localChatHistory (view (fire_all apiKeys es (fire apiKeys e \<sigma>))))"
    by simp
  with step have "prefix (localChatHistory (view \<sigma>))
      (localChatHistory (view (fire_all apiKeys es (fire apiKeys e \<sigma>))))"
    by (rule prefix_order.trans)
  then show ?case by (simp add: fire_all_def)
qed

text \<open>
  Claim C7. In every session that the controls of the view allow, an event other than
  Start Simulation and Back leaves the transcript as it is or appends one message to
  its end. Start Simulation replaces the transcript by the seed message, or by the
  empty transcript when the environment has no starting prompt; Back empties it. In
  the auto-loop, the reply of a turn appends one message, every other piece leaves
  the transcript as it is, and so does \<^verbatim>\<open>handleAutoLoop\<close> up to its first suspension.
  And from any session, whatever is suspended in it, a list of events without Start
  Simulation and Back only extends the transcript.
\<close>

theorem transcript_append_only:
  "(reachable apiKeys \<sigma> \<and> enabled e \<sigma> \<and> \<not> clears_transcript e \<longrightarrow>
      localChatHistory (view (fire apiKeys e \<sigma>)) = localChatHistory (view \<sigma>)
      \<or> (\<exists>m. localChatHistory (view (fire apiKeys e \<sigma>)) = localChatHistory (view \<sigma>) @ [m]))
   \<and> localChatHistory (view (fire apiKeys (Start_simulation environment now time) \<sigma>))
       = (if env_startingPrompt environment \<noteq> []
          then [\<lparr> msg_id = now, msg_type = System, msg_persona = None,
                   msg_content = env_startingPrompt environment, msg_timestamp = time,
                   msg_llm = None, msg_isRealAI = None \<rparr>]
          else [])
   \<and> localChatHistory (view (fire apiKeys Click_back \<sigma>)) = []
   \<and> (\<exists>m. localChatHistory
              (fst (loop_resumes apiKeys te (l\<lparr> al_at := Awaiting_reply i pt \<rparr>) s))
            = localChatHistory s @ [m])
   \<and> localChatHistory (fst (loop_resumes apiKeys te (l\<lparr> al_at := Pacing i \<rparr>) s))
       = localChatHistory s
   \<and> localChatHistory (fst (loop_resumes apiKeys te (l\<lparr> al_at := Round_timer \<rparr>) s))
       = localChatHistory s
   \<and> localChatHistory (fst (handleAutoLoop apiKeys te s)) = localChatHistory s
   \<and> ((\<forall>e\<in>set es. \<not> clears_transcript e) \<longrightarrow>
        prefix (localChatHistory (view \<sigma>))
          (localChatHistory (view (fire_all apiKeys es \<sigma>))))"
proof (intro conjI impI)
  assume a: "reachable apiKeys \<sigma> \<and> enabled e \<sigma> \<and> \<not> clears_transcript e"
  then show "localChatHistory (view (fire apiKeys e \<sigma>)) = localChatHistory (view \<sigma>)
      \<or> (\<exists>m. localChatHistory (view (fire apiKeys e \<sigma>)) = localChatHistory (view \<sigma>) @ [m])"
    by (intro fire_history) blast
next
  show "localChatHistory (view (fire apiKeys (Start_simulation environment now time) \<sigma>))
       = (if env_startingPrompt environment \<noteq> []
          then [\<lparr> msg_id = now, msg_type = System, msg_persona = None,
                   msg_content = env_startingPrompt environment, msg_timestamp = time,
                   msg_llm = None, msg_isRealAI = None \<rparr>]
          else [])"
    by (simp add: run_effects_def startSimulation_def)
next
  show "localChatHistory (view (fire apiKeys Click_back \<sigma>)) = []"
    by (simp add: run_effects_def handleBack_def)
next
  show "\<exists>m. localChatHistory
              (fst (loop_resumes apiKeys te (l\<lparr> al_at := Awaiting_reply i pt \<rparr>) s))
            = localChatHistory s @ [m]"
    by (simp add: loop_resumes_history)
next
  show "localChatHistory (fst (loop_resumes apiKeys te (l\<lparr> al_at := Pacing i \<rparr>) s))
       = localChatHistory s"
    by (simp add: loop_resumes_history)
next
  show "localChatHistory (fst (loop_resumes apiKeys te (l\<lparr> al_at := Round_timer \<rparr>) s))
       = localChatHistory s"
    by (simp add: loop_resumes_history)
next
  show "localChatHistory (fst (handleAutoLoop apiKeys te s)) = localChatHistory s"
    by (rule handleAutoLoop_history)
next
  assume "\<forall>e\<in>set es. \<not> clears_transcript e"
  then show "prefix (localChatHistory (view \<sigma>))
          (localChatHistory (view (fire_all apiKeys es \<sigma>)))"
    by (rule fire_all_prefix)
qed

text \<open>
  The theorem at the session in which the turn of \<open>ada\<close> is in flight: the arrival of
  her reply appends the agent message to the seed message; and at the list of events
  in which the user clicks Speak for \<open>ada\<close>, her reply arrives and the user exports
  the transcript.
\<close>

theorem transcript_append_only_witness:
  "reachable both_keys speaking_session
   \<and> enabled (Reply_arrives 0 1700000000000 ''10:15:00 AM'') speaking_session
   \<and> \<not> clears_transcript (Reply_arrives 0 1700000000000 ''10:15:00 AM'')
   \<and> (localChatHistory
         (view (fire both_keys (Reply_arrives 0 1700000000000 ''10:15:00 AM'') speaking_session))
        = localChatHistory (view speaking_session)
       \<or> (\<exists>m. localChatHistory
                 (view (fire both_keys (Reply_arrives 0 1700000000000 ''10:15:00 AM'')
                          speaking_session))
               = localChatHistory (view speaking_session) @ [m]))
   \<and> map msg_type
        (localChatHistory
           (view (fire both_keys (Reply_arrives 0 1700000000000 ''10:15:00 AM'')
                    speaking_session)))
       = [System, AI]
   \<and> \<not> clears_transcript Click_export
   \<and> prefix (localChatHistory (view speaking_session))
       (localChatHistory
          (view (fire_all both_keys
                   [Reply_arrives 0 1700000000000 ''10:15:00 AM'', Click_export]
                   speaking_session)))"
proof -
  have en: "enabled (Reply_arrives 0 1700000000000 ''10:15:00 AM'') speaking_session"
    by (simp add: speaking_session_fields)
  have "map msg_type
        (localChatHistory
           (view (fire both_keys (Reply_arrives 0 1700000000000 ''10:15:00 AM'')
                    speaking_session)))
       = [System, AI]"
    by (simp add: reply_arrives_def speaking_session_fields simulateAIResponse_resume_def
          Let_def turn_message_def split: prod.splits sum.splits)
  with transcript_append_only
         [of both_keys speaking_session "Reply_arrives 0 1700000000000 ''10:15:00 AM''"
            _ _ _ _ _ _ _ _
            "[Reply_arrives 0 1700000000000 ''10:15:00 AM'', Click_export]"]
       speaking_session_reachable en
  show ?thesis by simp
qed

text \<open>
  The two renderings of a manual turn agree: a turn whose reply arrives before anything
  else happens is \<^verbatim>\<open>simulateAIResponse\<close> as a whole. So do those of a turn of the
  loop: the piece that starts it and the piece its reply resumes make up
  \<^verbatim>\<open>simulateAIResponse\<close>.
\<close>

lemma manual_turn_in_two_steps:
  assumes "\<not> isProcessing (view \<sigma>)" and "pending \<sigma> = []"
  shows "view (reply_arrives 0 (te_now te) (te_time te)
                 (handleManualTurn_start apiKeys te persona \<sigma>))
           = handleManualTurn apiKeys te persona (view \<sigma>)"
  using assms
  by (simp add: reply_arrives_def handleManualTurn_start_def handleManualTurn_def
        simulateAIResponse_def Let_def split: prod.splits)

lemma loop_turn_in_two_steps:
  assumes "simulationRunningRef s" and "i < length participants"
      and "for_participants apiKeys te participants h r i s = (s', Some l)"
  shows "fst (loop_resumes apiKeys te l s')
           = simulateAIResponse apiKeys te h (participants ! i) s"
  using assms
  by (auto simp: for_participants_starts_turn loop_resumes_def simulateAIResponse_def
        Let_def split: prod.splits)

subsection \<open>What a suspended call would do\<close>

text \<open>
  No session that the controls allow holds a suspended call. The lemmas of this
  subsection follow the pieces of \<^verbatim>\<open>runNextTurn\<close> through sessions that do hold one,
  with the ref set: they show what the loop does once it runs. \<open>Loop_resumes 0 te\<close> is
  the only event besides the click on Stop; every turn reads the same \<open>te\<close>.
\<close>

lemma fire_all_Cons: "fire_all apiKeys (e # es) \<sigma> = fire_all apiKeys es (fire apiKeys e \<sigma>)"
  by (simp add: fire_all_def)

lemma fire_all_append:
  "fire_all apiKeys (es @ es') \<sigma> = fire_all apiKeys es' (fire_all apiKeys es \<sigma>)"
  by (simp add: fire_all_def)

lemma fire_all_Nil: "fire_all apiKeys [] \<sigma> = \<sigma>"
  by (simp add: fire_all_def)

lemma paused_afterE:
  assumes "paused_after ps h r i \<sigma>"
  obtains l where "calls \<sigma> = [l]" "al_participants l = ps" "al_history l = h"
    "al_round l = r" "al_at l = Pacing i"
    "simulationRunningRef (view \<sigma>)" "isSimulationRunning (view \<sigma>)"
  using assms by (auto simp: paused_after_def split: list.splits)

lemma timer_pendingE:
  assumes "timer_pending ps h r \<sigma>"
  obtains l where "calls \<sigma> = [l]" "al_participants l = ps" "al_history l = h"
    "al_round l = r" "al_at l = Round_timer"
    "simulationRunningRef (view \<sigma>)" "isSimulationRunning (view \<sigma>)"
  using assms by (auto simp: timer_pending_def split: list.splits)

lemma turn_in_session:
  assumes "calls \<sigma> = [l]" and "simulationRunningRef (view \<sigma>)"
      and "isSimulationRunning (view \<sigma>)" and "i < length ps"
      and "loop_resumes apiKeys te l (view \<sigma>) = for_participants apiKeys te ps h r i (view \<sigma>)"
  shows "paused_after ps h r i (fire_all apiKeys [Loop_resumes 0 te, Loop_resumes 0 te] \<sigma>)
         \<and> localChatHistory
              (view (fire_all apiKeys [Loop_resumes 0 te, Loop_resumes 0 te] \<sigma>))
             = localChatHistory (view \<sigma>) @ [loop_message apiKeys te h (ps ! i)]
         \<and> turns_started (view (fire_all apiKeys [Loop_resumes 0 te, Loop_resumes 0 te] \<sigma>))
             = Suc (turns_started (view \<sigma>))"
proof -
  let ?s = "view \<sigma>"
  let ?pt = "\<lparr> pt_persona = ps ! i, pt_reply = fst (turn_reply apiKeys te h (ps ! i)),
               pt_env = te \<rparr>"
  let ?l1 = "\<lparr> al_participants = ps, al_history = h, al_round = r,
               al_at = Awaiting_reply i ?pt \<rparr>"
  let ?s1 = "simulateAIResponse_start (snd (turn_reply apiKeys te h (ps ! i))) ?s"
  have start: "loop_resumes apiKeys te l ?s = (?s1, Some ?l1)"
    unfolding assms(5) using assms(2,4) by (rule for_participants_starts_turn)
  have run1: "run_effects ?s1 = ?s1"
    using assms(2,3) by (simp add: run_effects_def simulateAIResponse_start_def)
  have one: "fire apiKeys (Loop_resumes 0 te) \<sigma> = \<sigma>\<lparr> view := ?s1, calls := [?l1] \<rparr>"
    using assms(1) start run1 by (simp add: loop_resumes_at_def)
  have env: "te\<lparr> te_now := te_now te, te_time := te_time te \<rparr> = te" by simp
  let ?s2 = "simulateAIResponse_resume (loop_message apiKeys te h (ps ! i)) ?s1"
  have ends: "loop_resumes apiKeys te ?l1 ?s1 = (?s2, Some (?l1\<lparr> al_at := Pacing i \<rparr>))"
    by (simp add: loop_resumes_def loop_message_def env)
  have run2: "run_effects ?s2 = ?s2"
    using assms(2,3)
    by (simp add: run_effects_def simulateAIResponse_start_def simulateAIResponse_resume_def)
  have "fire_all apiKeys [Loop_resumes 0 te, Loop_resumes 0 te] \<sigma>
      = fire apiKeys (Loop_resumes 0 te) (\<sigma>\<lparr> view := ?s1, calls := [?l1] \<rparr>)"
    by (simp only: fire_all_def foldl.simps one)
  also have "\<dots> = \<sigma>\<lparr> view := ?s2, calls := [?l1\<lparr> al_at := Pacing i \<rparr>] \<rparr>"
    using ends run2 by (simp add: loop_resumes_at_def)
  finally have two: "fire_all apiKeys [Loop_resumes 0 te, Loop_resumes 0 te] \<sigma>
      = \<sigma>\<lparr> view := ?s2, calls := [?l1\<lparr> al_at := Pacing i \<rparr>] \<rparr>" .
  show ?thesis
    unfolding two using assms(2,3)
    by (simp add: paused_after_def simulateAIResponse_start_def simulateAIResponse_resume_def)
qed

lemma next_turn:
  assumes "paused_after ps h r i \<sigma>" and "Suc i < length ps"
  shows "paused_after ps h r (Suc i)
           (fire_all apiKeys [Loop_resumes 0 te, Loop_resumes 0 te] \<sigma>)
         \<and> localChatHistory
              (view (fire_all apiKeys [Loop_resumes 0 te, Loop_resumes 0 te] \<sigma>))
             = localChatHistory (view \<sigma>) @ [loop_message apiKeys te h (ps ! Suc i)]
         \<and> turns_started (view (fire_all apiKeys [Loop_resumes 0 te, Loop_resumes 0 te] \<sigma>))
             = Suc (turns_started (view \<sigma>))"
proof -
  from assms(1) obtain l where l: "calls \<sigma> = [l]" "al_participants l = ps"
    "al_history l = h" "al_round l = r" "al_at l = Pacing i"
    "simulationRunningRef (view \<sigma>)" "isSimulationRunning (view \<sigma>)"
    by (rule paused_afterE)
  have "loop_resumes apiKeys te l (view \<sigma>)
      = for_participants apiKeys te ps h r (Suc i) (view \<sigma>)"
    using l by (simp add: loop_resumes_def)
  with l assms(2) show ?thesis by (intro turn_in_session) simp_all
qed

lemma first_turn:
  assumes "timer_pending ps h r \<sigma>" and "r < maxRounds" and "0 < length ps"
  shows "paused_after ps h r 0
           (fire_all apiKeys [Loop_resumes 0 te, Loop_resumes 0 te] \<sigma>)
         \<and> localChatHistory
              (view (fire_all apiKeys [Loop_resumes 0 te, Loop_resumes 0 te] \<sigma>))
             = localChatHistory (view \<sigma>) @ [loop_message apiKeys te h (ps ! 0)]
         \<and> turns_started (view (fire_all apiKeys [Loop_resumes 0 te, Loop_resumes 0 te] \<sigma>))
             = Suc (turns_started (view \<sigma>))"
proof -
  from assms(1) obtain l where l: "calls \<sigma> = [l]" "al_participants l = ps"
    "al_history l = h" "al_round l = r" "al_at l = Round_timer"
    "simulationRunningRef (view \<sigma>)" "isSimulationRunning (view \<sigma>)"
    by (rule timer_pendingE)
  have "loop_resumes apiKeys te l (view \<sigma>)
      = for_participants apiKeys te ps h r 0 (view \<sigma>)"
    using l assms(2) by (simp add: loop_resumes_def runNextTurn_def)
  with l assms(3) show ?thesis by (intro turn_in_session) simp_all
qed

lemma further_turns:
  assumes "paused_after ps h r i \<sigma>" and "i + m < length ps"
  shows "paused_after ps h r (i + m)
           (fire_all apiKeys (replicate (2 * m) (Loop_resumes 0 te)) \<sigma>)
         \<and> localChatHistory
              (view (fire_all apiKeys (replicate (2 * m) (Loop_resumes 0 te)) \<sigma>))
             = localChatHistory (view \<sigma>)
                 @ map (loop_message apiKeys te h) (take m (drop (Suc i) ps))
         \<and> turns_started (view (fire_all apiKeys (replicate (2 * m) (Loop_resumes 0 te)) \<sigma>))
             = turns_started (view \<sigma>) + m"
  using assms
proof (induction m arbitrary: i \<sigma>)
  case 0
  then show ?case by (simp add: fire_all_Nil)
next
  case (Suc m)
  let ?\<sigma>' = "fire_all apiKeys [Loop_resumes 0 te, Loop_resumes 0 te] \<sigma>"
  from Suc.prems have next_one: "Suc i < length ps" by simp
  from next_turn [OF Suc.prems(1) next_one, of apiKeys te]
  have p: "paused_after ps h r (Suc i) ?\<sigma>'"
    and hist: "localChatHistory (view ?\<sigma>')
        = localChatHistory (view \<sigma>) @ [loop_message apiKeys te h (ps ! Suc i)]"
    and cnt: "turns_started (view ?\<sigma>') = Suc (turns_started (view \<sigma>))"
    by blast+
  from Suc.prems have rest: "Suc i + m < length ps" by simp
  have split: "fire_all apiKeys (replicate (2 * Suc m) (Loop_resumes 0 te)) \<sigma>
      = fire_all apiKeys (replicate (2 * m) (Loop_resumes 0 te)) ?\<sigma>'"
    by (simp add: fire_all_def)
  have msgs: "take (Suc m) (drop (Suc i) ps) = ps ! Suc i # take m (drop (Suc (Suc i)) ps)"
    using next_one by (simp add: Cons_nth_drop_Suc [symmetric])
  from Suc.IH [OF p rest] hist cnt show ?case
    unfolding split msgs by simp
qed

text \<open>
  A click on Stop during the pause after a turn makes the call return when the pause
  ends: no turn starts, the transcript stays, nothing is suspended any more.
\<close>

lemma stop_during_pause:
  assumes "calls \<sigma> = [l]" and "al_at l = Pacing i"
  shows "calls (fire_all apiKeys [Click_stop, Loop_resumes 0 te] \<sigma>) = []"
    and "turns_started (view (fire_all apiKeys [Click_stop, Loop_resumes 0 te] \<sigma>))
           = turns_started (view \<sigma>)"
    and "\<not> isSimulationRunning (view (fire_all apiKeys [Click_stop, Loop_resumes 0 te] \<sigma>))"
    and "localChatHistory (view (fire_all apiKeys [Click_stop, Loop_resumes 0 te] \<sigma>))
           = localChatHistory (view \<sigma>)"
proof -
  let ?s = "run_effects (stopSimulation (view \<sigma>))"
  have off: "\<not> simulationRunningRef ?s"
    by (simp add: run_effects_def stopSimulation_def)
  have "loop_resumes apiKeys te l ?s = (?s\<lparr>isSimulationRunning := False\<rparr>, None)"
    using off assms(2) by (rule loop_resumes_cancelled(1))
  then have *: "fire_all apiKeys [Click_stop, Loop_resumes 0 te] \<sigma>
      = \<sigma>\<lparr> view := run_effects (?s\<lparr>isSimulationRunning := False\<rparr>), calls := [] \<rparr>"
    using assms(1) by (simp add: fire_all_def loop_resumes_at_def)
  show "calls (fire_all apiKeys [Click_stop, Loop_resumes 0 te] \<sigma>) = []"
    unfolding * by simp
  show "turns_started (view (fire_all apiKeys [Click_stop, Loop_resumes 0 te] \<sigma>))
           = turns_started (view \<sigma>)"
    unfolding * by (simp add: run_effects_def stopSimulation_def)
  show "\<not> isSimulationRunning (view (fire_all apiKeys [Click_stop, Loop_resumes 0 te] \<sigma>))"
    unfolding * by (simp add: run_effects_def)
  show "localChatHistory (view (fire_all apiKeys [Click_stop, Loop_resumes 0 te] \<sigma>))
           = localChatHistory (view \<sigma>)"
    unfolding * by (simp add: run_effects_def stopSimulation_def)
qed

text \<open>
  Cancellation between two turns of a round: the call waits for the timer before round
  \<open>r\<close>, takes the turns of the first \<open>k\<close> participants, the user clicks Stop during the
  pause after the last of them, and the pause ends. The transcript has grown by the
  messages of these \<open>k\<close> turns, in the order of the participants; \<open>k\<close> turns have
  started; nothing is suspended any more.
\<close>

lemma cancelled_after_turns:
  assumes "timer_pending ps h r \<sigma>" and "r < maxRounds" and "0 < k" and "k \<le> length ps"
  shows "localChatHistory
           (view (fire_all apiKeys
                    (replicate (2 * k) (Loop_resumes 0 te) @ [Click_stop, Loop_resumes 0 te])
                    \<sigma>))
           = localChatHistory (view \<sigma>) @ map (loop_message apiKeys te h) (take k ps)"
    and "turns_started
           (view (fire_all apiKeys
                    (replicate (2 * k) (Loop_resumes 0 te) @ [Click_stop, Loop_resumes 0 te])
                    \<sigma>))
           = turns_started (view \<sigma>) + k"
    and "calls (fire_all apiKeys
                  (replicate (2 * k) (Loop_resumes 0 te) @ [Click_stop, Loop_resumes 0 te]) \<sigma>)
           = []"
    and "\<not> isSimulationRunning
           (view (fire_all apiKeys
                    (replicate (2 * k) (Loop_resumes 0 te) @ [Click_stop, Loop_resumes 0 te])
                    \<sigma>))"
proof -
  obtain m where k: "k = Suc m" using assms(3) by (cases k) simp_all
  let ?\<sigma>1 = "fire_all apiKeys [Loop_resumes 0 te, Loop_resumes 0 te] \<sigma>"
  let ?\<sigma>2 = "fire_all apiKeys (replicate (2 * m) (Loop_resumes 0 te)) ?\<sigma>1"
  have some: "0 < length ps" using assms(3,4) by linarith
  from first_turn [OF assms(1,2) some, of apiKeys te]
  have p1: "paused_after ps h r 0 ?\<sigma>1"
    and h1: "localChatHistory (view ?\<sigma>1)
        = localChatHistory (view \<sigma>) @ [loop_message apiKeys te h (ps ! 0)]"
    and c1: "turns_started (view ?\<sigma>1) = Suc (turns_started (view \<sigma>))"
    by blast+
  have "0 + m < length ps" using assms(4) k by simp
  from further_turns [OF p1 this, of apiKeys te]
  have p2: "paused_after ps h r m ?\<sigma>2"
    and h2: "localChatHistory (view ?\<sigma>2)
        = localChatHistory (view ?\<sigma>1) @ map (loop_message apiKeys te h) (take m (drop 1 ps))"
    and c2: "turns_started (view ?\<sigma>2) = turns_started (view ?\<sigma>1) + m"
    by simp_all
  from p2 obtain l where l: "calls ?\<sigma>2 = [l]" "al_at l = Pacing m"
    by (rule paused_afterE)
  have split: "fire_all apiKeys
        (replicate (2 * k) (Loop_resumes 0 te) @ [Click_stop, Loop_resumes 0 te]) \<sigma>
      = fire_all apiKeys [Click_stop, Loop_resumes 0 te] ?\<sigma>2"
    unfolding k by (simp add: fire_all_def)
  have msgs: "take k ps = ps ! 0 # take m (drop 1 ps)"
    using some k by (cases ps) simp_all
  have stop_hist: "localChatHistory (view (fire_all apiKeys [Click_stop, Loop_resumes 0 te] ?\<sigma>2))
      = localChatHistory (view ?\<sigma>2)"
    by (rule stop_during_pause(4) [OF l])
  show "localChatHistory
           (view (fire_all apiKeys
                    (replicate (2 * k) (Loop_resumes 0 te) @ [Click_stop, Loop_resumes 0 te])
                    \<sigma>))
           = localChatHistory (view \<sigma>) @ map (loop_message apiKeys te h) (take k ps)"
    unfolding split stop_hist h2 h1 msgs by simp
  show "turns_started
           (view (fire_all apiKeys
                    (replicate (2 * k) (Loop_resumes 0 te) @ [Click_stop, Loop_resumes 0 te])
                    \<sigma>))
           = turns_started (view \<sigma>) + k"
    unfolding split using stop_during_pause(2) [OF l, of apiKeys te] c2 c1 k by simp
  show "calls (fire_all apiKeys
                  (replicate (2 * k) (Loop_resumes 0 te) @ [Click_stop, Loop_resumes 0 te]) \<sigma>)
           = []"
    unfolding split by (rule stop_during_pause(1) [OF l])
  show "\<not> isSimulationRunning
           (view (fire_all apiKeys
                    (replicate (2 * k) (Loop_resumes 0 te) @ [Click_stop, Loop_resumes 0 te])
                    \<sigma>))"
    unfolding split by (rule stop_during_pause(3) [OF l])
qed

lemma round_over:
  assumes "paused_after ps h r i \<sigma>" and "Suc i = length ps"
  shows "(if Suc r < maxRounds
          then timer_pending ps h (Suc r) (fire apiKeys (Loop_resumes 0 te) \<sigma>)
          else calls (fire apiKeys (Loop_resumes 0 te) \<sigma>) = []
               \<and> \<not> isSimulationRunning (view (fire apiKeys (Loop_resumes 0 te) \<sigma>)))
         \<and> localChatHistory (view (fire apiKeys (Loop_resumes 0 te) \<sigma>))
             = localChatHistory (view \<sigma>)
         \<and> turns_started (view (fire apiKeys (Loop_resumes 0 te) \<sigma>))
             = turns_started (view \<sigma>)"
proof -
  from assms(1) obtain l where l: "calls \<sigma> = [l]" "al_participants l = ps"
    "al_history l = h" "al_round l = r" "al_at l = Pacing i"
    "simulationRunningRef (view \<sigma>)" "isSimulationRunning (view \<sigma>)"
    by (rule paused_afterE)
  have "loop_resumes apiKeys te l (view \<sigma>)
      = for_participants apiKeys te ps h r (Suc i) (view \<sigma>)"
    using l by (simp add: loop_resumes_def)
  also have "\<dots> =
      (if Suc r < maxRounds
       then (view \<sigma>, Some \<lparr> al_participants = ps, al_history = h,
                              al_round = Suc r, al_at = Round_timer \<rparr>)
       else ((view \<sigma>)\<lparr>isSimulationRunning := False\<rparr>, None))"
    using l(6) assms(2) by (intro for_participants_round_over) simp_all
  finally show ?thesis
    using l by (simp add: loop_resumes_at_def run_effects_def timer_pending_def)
qed

lemma whole_round:
  assumes "timer_pending ps h r \<sigma>" and "r < maxRounds" and "0 < length ps"
  shows "paused_after ps h r (length ps - 1)
           (fire_all apiKeys (replicate (2 * length ps) (Loop_resumes 0 te)) \<sigma>)
         \<and> localChatHistory
              (view (fire_all apiKeys (replicate (2 * length ps) (Loop_resumes 0 te)) \<sigma>))
             = localChatHistory (view \<sigma>) @ map (loop_message apiKeys te h) ps
         \<and> turns_started
              (view (fire_all apiKeys (replicate (2 * length ps) (Loop_resumes 0 te)) \<sigma>))
             = turns_started (view \<sigma>) + length ps"
proof -
  obtain m where n: "length ps = Suc m" using assms(3) by (cases "length ps") simp_all
  let ?\<sigma>1 = "fire_all apiKeys [Loop_resumes 0 te, Loop_resumes 0 te] \<sigma>"
  from first_turn [OF assms, of apiKeys te]
  have p1: "paused_after ps h r 0 ?\<sigma>1"
    and h1: "localChatHistory (view ?\<sigma>1)
        = localChatHistory (view \<sigma>) @ [loop_message apiKeys te h (ps ! 0)]"
    and c1: "turns_started (view ?\<sigma>1) = Suc (turns_started (view \<sigma>))"
    by blast+
  have "0 + m < length ps" using n by simp
  from further_turns [OF p1 this, of apiKeys te]
  have p2: "paused_after ps h r m
        (fire_all apiKeys (replicate (2 * m) (Loop_resumes 0 te)) ?\<sigma>1)"
    and h2: "localChatHistory
        (view (fire_all apiKeys (replicate (2 * m) (Loop_resumes 0 te)) ?\<sigma>1))
        = localChatHistory (view ?\<sigma>1) @ map (loop_message apiKeys te h) (take m (drop 1 ps))"
    and c2: "turns_started
        (view (fire_all apiKeys (replicate (2 * m) (Loop_resumes 0 te)) ?\<sigma>1))
        = turns_started (view ?\<sigma>1) + m"
    by simp_all
  have split: "fire_all apiKeys (replicate (2 * length ps) (Loop_resumes 0 te)) \<sigma>
      = fire_all apiKeys (replicate (2 * m) (Loop_resumes 0 te)) ?\<sigma>1"
    unfolding n by (simp add: fire_all_def)
  have msgs: "ps = ps ! 0 # take m (drop 1 ps)"
    using n by (cases ps) simp_all
  have "map (loop_message apiKeys te h) ps
      = loop_message apiKeys te h (ps ! 0)
          # map (loop_message apiKeys te h) (take m (drop 1 ps))"
    by (subst msgs) simp
  with p2 h2 c2 h1 c1 n show ?thesis unfolding split by simp
qed

text \<open>
  A run that nobody interrupts: from the timer before round \<open>r\<close> the call takes the
  turns of all participants, in their order, in each of the rounds up to the fifth, and
  returns. \<open>2 * length ps + 1\<close> resumptions make up a round: a start and an end for
  every turn, and the end of the last pause.
\<close>

lemma uninterrupted_run:
  assumes "timer_pending ps h r \<sigma>" and "r < maxRounds" and "0 < length ps"
  shows "localChatHistory
           (view (fire_all apiKeys
                    (replicate ((maxRounds - r) * (2 * length ps + 1)) (Loop_resumes 0 te))
                    \<sigma>))
           = localChatHistory (view \<sigma>)
               @ concat (replicate (maxRounds - r) (map (loop_message apiKeys te h) ps))
         \<and> turns_started
              (view (fire_all apiKeys
                       (replicate ((maxRounds - r) * (2 * length ps + 1)) (Loop_resumes 0 te))
                       \<sigma>))
             = turns_started (view \<sigma>) + (maxRounds - r) * length ps
         \<and> calls (fire_all apiKeys
                     (replicate ((maxRounds - r) * (2 * length ps + 1)) (Loop_resumes 0 te))
                     \<sigma>)
             = []
         \<and> \<not> isSimulationRunning
              (view (fire_all apiKeys
                       (replicate ((maxRounds - r) * (2 * length ps + 1)) (Loop_resumes 0 te))
                       \<sigma>))"
  using assms
proof (induction "maxRounds - r" arbitrary: r \<sigma>)
  case 0
  then show ?case by simp
next
  case (Suc d)
  let ?L = "Loop_resumes 0 te"
  let ?n = "length ps"
  let ?\<sigma>1 = "fire_all apiKeys (replicate (2 * ?n) ?L) \<sigma>"
  let ?\<sigma>2 = "fire apiKeys ?L ?\<sigma>1"
  from whole_round [OF Suc.prems, of apiKeys te]
  have p1: "paused_after ps h r (?n - 1) ?\<sigma>1"
    and h1: "localChatHistory (view ?\<sigma>1)
        = localChatHistory (view \<sigma>) @ map (loop_message apiKeys te h) ps"
    and c1: "turns_started (view ?\<sigma>1) = turns_started (view \<sigma>) + ?n"
    by blast+
  have last: "Suc (?n - 1) = ?n" using Suc.prems(3) by simp
  note over = round_over [OF p1 last, of apiKeys te]
  have rounds: "maxRounds - r = Suc d" using Suc.hyps(2) by simp
  have split: "fire_all apiKeys (replicate ((maxRounds - r) * (2 * ?n + 1)) ?L) \<sigma>
      = fire_all apiKeys (replicate (d * (2 * ?n + 1)) ?L) ?\<sigma>2"
  proof -
    have "replicate ((maxRounds - r) * (2 * ?n + 1)) ?L
        = replicate (2 * ?n) ?L @ [?L] @ replicate (d * (2 * ?n + 1)) ?L"
      unfolding rounds by (simp add: replicate_add [symmetric] flip: replicate_Suc)
    then show ?thesis by (simp add: fire_all_append fire_all_Cons)
  qed
  define \<sigma>2 where "\<sigma>2 = fire apiKeys ?L ?\<sigma>1"
  define \<sigma>3 where "\<sigma>3 = fire_all apiKeys (replicate (d * (2 * ?n + 1)) ?L) \<sigma>2"
  have whole: "fire_all apiKeys (replicate ((maxRounds - r) * (2 * ?n + 1)) ?L) \<sigma> = \<sigma>3"
    unfolding split \<sigma>3_def \<sigma>2_def ..
  have h2: "localChatHistory (view \<sigma>2) = localChatHistory (view \<sigma>) @ map (loop_message apiKeys te h) ps"
    and c2: "turns_started (view \<sigma>2) = turns_started (view \<sigma>) + ?n"
    using over h1 c1 unfolding \<sigma>2_def by simp_all
  show ?case
  proof (cases "Suc r < maxRounds")
    case True
    with over have t: "timer_pending ps h (Suc r) \<sigma>2"
      unfolding \<sigma>2_def by simp
    have d: "d = maxRounds - Suc r" using rounds by simp
    from Suc.hyps(1) [OF d t True Suc.prems(3)]
    have "localChatHistory (view \<sigma>3)
           = localChatHistory (view \<sigma>2)
               @ concat (replicate d (map (loop_message apiKeys te h) ps))
         \<and> turns_started (view \<sigma>3) = turns_started (view \<sigma>2) + d * length ps
         \<and> calls \<sigma>3 = []
         \<and> \<not> isSimulationRunning (view \<sigma>3)"
      unfolding \<sigma>3_def d [symmetric] .
    with h2 c2 show ?thesis
      unfolding whole unfolding rounds by simp
  next
    case False
    with over have ended: "calls \<sigma>2 = []" "\<not> isSimulationRunning (view \<sigma>2)"
      unfolding \<sigma>2_def by simp_all
    from False Suc.prems(2) rounds have d: "d = 0" by simp
    have "\<sigma>3 = \<sigma>2" unfolding \<sigma>3_def d by (simp add: fire_all_Nil)
    with ended h2 c2 show ?thesis
      unfolding whole unfolding rounds d by simp
  qed
qed

text \<open>
  A click on Auto-Run between the click on Stop and the end of the pause undoes the
  cancellation: the new call returns at its first poll, the effect of its state update
  sets the ref again, and the old call goes on with the next turn.
\<close>

lemma stop_undone_by_auto_run:
  assumes "calls \<sigma> = [l]" and "al_at l = Pacing i" and "Suc i < length (al_participants l)"
      and "selectedEnvironment (view \<sigma>) = Some e"
  shows "turns_started
           (view (fire_all apiKeys [Click_stop, Click_auto_run te', Loop_resumes 0 te] \<sigma>))
           = Suc (turns_started (view \<sigma>))"
    and "length (calls (fire_all apiKeys [Click_stop, Click_auto_run te', Loop_resumes 0 te] \<sigma>))
           = 1"
proof -
  let ?s = "run_effects (stopSimulation (view \<sigma>))"
  let ?s' = "?s\<lparr> isSimulationRunning := True, simulationRunningRef := True \<rparr>"
  let ?ps = "al_participants l"
  have "handleAutoLoop apiKeys te' ?s = (?s\<lparr>isSimulationRunning := True\<rparr>, None)"
    using assms(4)
    by (intro handleAutoLoop_stale_ref [where e = e])
       (simp_all add: run_effects_def stopSimulation_def)
  then have again: "fire_all apiKeys [Click_stop, Click_auto_run te'] \<sigma> = \<sigma>\<lparr> view := ?s' \<rparr>"
    by (simp add: fire_all_def click_auto_run_def run_effects_def)
  have on: "simulationRunningRef ?s'" by simp
  have "loop_resumes apiKeys te l ?s'
      = for_participants apiKeys te ?ps (al_history l) (al_round l) (Suc i) ?s'"
    using assms(2) by (simp add: loop_resumes_def)
  also have "\<dots> =
      (simulateAIResponse_start
         (snd (turn_reply apiKeys te (al_history l) (?ps ! Suc i))) ?s',
       Some \<lparr> al_participants = ?ps, al_history = al_history l, al_round = al_round l,
              al_at = Awaiting_reply (Suc i)
                \<lparr> pt_persona = ?ps ! Suc i,
                  pt_reply = fst (turn_reply apiKeys te (al_history l) (?ps ! Suc i)),
                  pt_env = te \<rparr> \<rparr>)"
    using on assms(3) by (rule for_participants_starts_turn)
  finally have step: "loop_resumes apiKeys te l ?s' =
      (simulateAIResponse_start
         (snd (turn_reply apiKeys te (al_history l) (?ps ! Suc i))) ?s',
       Some \<lparr> al_participants = ?ps, al_history = al_history l, al_round = al_round l,
              al_at = Awaiting_reply (Suc i)
                \<lparr> pt_persona = ?ps ! Suc i,
                  pt_reply = fst (turn_reply apiKeys te (al_history l) (?ps ! Suc i)),
                  pt_env = te \<rparr> \<rparr>)" .
  have all: "fire_all apiKeys [Click_stop, Click_auto_run te', Loop_resumes 0 te] \<sigma>
      = fire apiKeys (Loop_resumes 0 te) (fire_all apiKeys [Click_stop, Click_auto_run te'] \<sigma>)"
    by (simp add: fire_all_def)
  show "turns_started
           (view (fire_all apiKeys [Click_stop, Click_auto_run te', Loop_resumes 0 te] \<sigma>))
           = Suc (turns_started (view \<sigma>))"
    unfolding all again using assms(1) step
    by (simp add: loop_resumes_at_def simulateAIResponse_start_def run_effects_def
          stopSimulation_def)
  show "length (calls (fire_all apiKeys [Click_stop, Click_auto_run te', Loop_resumes 0 te] \<sigma>))
           = 1"
    unfolding all again using assms(1) step
    by (simp add: loop_resumes_at_def)
qed

text \<open>
  \<^verbatim>\<open>handleAutoLoop\<close> itself, were the ref set when the user clicks Auto-Run: the
  turn of the first participant starts within the click.
\<close>

lemma handleAutoLoop_ref_set:
  assumes "selectedEnvironment s = Some e" and "\<not> isProcessing s"
      and "simulationRunningRef s" and "env_participants e \<noteq> []"
  shows "turns_started (fst (handleAutoLoop apiKeys te s)) = Suc (turns_started s)"
    and "\<exists>pt. snd (handleAutoLoop apiKeys te s)
              = Some \<lparr> al_participants = env_participants e,
                       al_history = localChatHistory s, al_round = 0,
                       al_at = Awaiting_reply 0 pt \<rparr>"
  using assms
  by (simp_all add: handleAutoLoop_def runNextTurn_def maxRounds_def
        for_participants_starts_turn simulateAIResponse_start_def)

section \<open>The export\<close>

lemma digit_char_is_digit: "d < 10 \<Longrightarrow> is_digit (digit_char d)"
  by (simp add: is_digit_def digit_char_def)

lemma digit_char_value: "d < 10 \<Longrightarrow> (of_char (digit_char d) :: nat) - 48 = d"
  by (simp add: digit_char_def)

lemma show_nat_digits: "\<forall>c \<in> set (show_nat n). is_digit c"
proof (induction n rule: show_nat.induct)
  case (1 n)
  show ?case
  proof (cases "n < 10")
    case True
    then show ?thesis by (subst show_nat.simps) (simp add: digit_char_is_digit)
  next
    case False
    with 1 show ?thesis by (subst show_nat.simps) (simp add: digit_char_is_digit)
  qed
qed

lemma show_nat_not_empty: "show_nat n \<noteq> []"
  by (subst show_nat.simps) simp

lemma show_nat_value:
  "foldl (\<lambda>a c. 10 * a + ((of_char c :: nat) - 48)) 0 (show_nat n) = n"
proof (induction n rule: show_nat.induct)
  case (1 n)
  show ?case
  proof (cases "n < 10")
    case True
    then show ?thesis by (subst show_nat.simps) (simp add: digit_char_value)
  next
    case False
    with 1 show ?thesis by (subst show_nat.simps) (simp add: digit_char_value)
  qed
qed

lemma read_digits_all:
  assumes "\<forall>c \<in> set ds. is_digit c" and "rest = [] \<or> is_digit (hd rest) = False"
  shows "read_digits acc (ds @ rest)
           = (foldl (\<lambda>a c. 10 * a + ((of_char c :: nat) - 48)) acc ds, rest)"
  using assms
proof (induction ds arbitrary: acc)
  case Nil
  then show ?case by (cases rest) auto
next
  case (Cons d ds)
  then show ?case by simp
qed

lemma read_show_nat:
  assumes "rest = [] \<or> is_digit (hd rest) = False"
  shows "read_digits 0 (show_nat n @ rest) = (n, rest)"
  using read_digits_all [OF show_nat_digits assms] by (simp add: show_nat_value)

lemma hex_value_hex_char: "d < 16 \<Longrightarrow> hex_value (hex_char d) = Some d"
  by (auto simp: hex_value_def hex_char_def Let_def)

lemma hex_value_zero: "hex_value (CHR ''0'') = Some 0"
  by (simp add: hex_value_def)

lemma unicode_escape_control:
  assumes "(of_char c :: nat) < 32"
  shows "unicode_escape (CHR ''0'') (CHR ''0'')
           (hex_char (of_char c div 16)) (hex_char (of_char c mod 16)) = Some c"
proof -
  have "(of_char c :: nat) div 16 < 16" using assms by simp
  then show ?thesis
    by (simp add: unicode_escape_def hex_value_zero hex_value_hex_char)
qed

lemma parse_string_body_escape_char:
  assumes "parse_string_body text = Some (s, rest)"
  shows "parse_string_body (escape_char c @ text) = Some (c # s, rest)"
proof -
  consider "c = CHR 0x22" | "c = CHR 0x5C" | "c = CHR 0x08" | "c = CHR 0x0C"
    | "c = CHR 0x0A" | "c = CHR 0x0D" | "c = CHR 0x09"
    | "c \<notin> {CHR 0x22, CHR 0x5C, CHR 0x08, CHR 0x0C, CHR 0x0A, CHR 0x0D, CHR 0x09}"
      "(of_char c :: nat) < 32"
    | "c \<notin> {CHR 0x22, CHR 0x5C, CHR 0x08, CHR 0x0C, CHR 0x0A, CHR 0x0D, CHR 0x09}"
      "\<not> (of_char c :: nat) < 32"
    by blast
  then show ?thesis
  proof cases
    case 8
    then show ?thesis
      using assms by (simp add: escape_char_def unicode_escape_control)
  next
    case 9
    then show ?thesis
      using assms by (simp add: escape_char_def)
  qed (use assms in \<open>simp_all add: escape_char_def unescape_def\<close>)
qed

lemma parse_string_body_quote:
  "parse_string_body (concat (map escape_char s) @ CHR 0x22 # rest) = Some (s, rest)"
proof (induction s)
  case Nil
  show ?case by simp
next
  case (Cons c s)
  then show ?case
    by (simp add: parse_string_body_escape_char del: parse_string_body.simps)
qed

lemma skip_ws_spaces:
  "\<forall>c \<in> set ws. is_json_space c \<Longrightarrow> skip_ws (ws @ s) = skip_ws s"
  by (simp add: skip_ws_def dropWhile_append2)

lemma skip_ws_head: "\<not> is_json_space c \<Longrightarrow> skip_ws (c # s) = c # s"
  by (simp add: skip_ws_def)

lemma skip_ws_spaces_head:
  "\<forall>c \<in> set ws. is_json_space c \<Longrightarrow> \<not> is_json_space c \<Longrightarrow> skip_ws (ws @ c # s) = c # s"
  by (simp add: skip_ws_spaces skip_ws_head)

lemma join_with_Cons:
  "xs \<noteq> [] \<Longrightarrow> join_with sep (x # xs) = x @ sep @ join_with sep xs"
  by (cases xs) simp_all

lemma indent_spaces:
  "\<forall>c \<in> set indent. is_json_space c \<Longrightarrow> \<forall>c \<in> set (indent @ ''  ''). is_json_space c"
  "\<forall>c \<in> set indent. is_json_space c \<Longrightarrow> \<forall>c \<in> set (''\<newline>'' @ indent). is_json_space c"
  by (auto simp: is_json_space_def)

text \<open>The first character of a serialised value, as far as the parser looks at it.\<close>

lemma stringify_head:
  "\<exists>c cs. stringify indent v = c # cs \<and> \<not> is_json_space c \<and> c \<noteq> CHR '']'' \<and> c \<noteq> CHR ''}''"
proof (cases v)
  case (JNumber n)
  obtain c cs where cs: "show_nat n = c # cs"
    using show_nat_not_empty [of n] by (cases "show_nat n") auto
  then have "is_digit c" using show_nat_digits [of n] by simp
  then have "\<not> is_json_space c \<and> c \<noteq> CHR '']'' \<and> c \<noteq> CHR ''}''"
    by (auto simp: is_digit_def is_json_space_def)
  with cs JNumber show ?thesis by simp
qed (auto simp: is_json_space_def quote_def)

lemma parse_elements_stringify:
  assumes "vs \<noteq> []"
      and "\<forall>v \<in> set vs. \<forall>n ws rest.
             (\<forall>c \<in> set ws. is_json_space c) \<longrightarrow> (rest = [] \<or> is_digit (hd rest) = False)
             \<longrightarrow> length (stringify inner v) < n
             \<longrightarrow> parse_value n (ws @ stringify inner v @ rest) = Some (v, rest)"
      and "\<forall>c \<in> set indent. is_json_space c" and "\<forall>c \<in> set inner. is_json_space c"
      and "\<forall>c \<in> set ws. is_json_space c"
      and "length (join_with ('','' @ ''\<newline>'' @ inner) (map (stringify inner) vs)
                     @ ''\<newline>'' @ indent @ '']'') < m"
  shows "parse_elements m
           (ws @ join_with ('','' @ ''\<newline>'' @ inner) (map (stringify inner) vs)
               @ ''\<newline>'' @ indent @ '']'' @ rest) = Some (vs, rest)"
  using assms
proof (induction vs arbitrary: ws m rule: list_nonempty_induct)
  case (single v)
  from single.prems(5) obtain m' where m: "m = Suc m'" by (cases m) auto
  have fuel: "length (stringify inner v) < m'" using single.prems(5) m by simp
  have "parse_value m' (ws @ stringify inner v @ (''\<newline>'' @ indent @ '']'' @ rest))
          = Some (v, ''\<newline>'' @ indent @ '']'' @ rest)"
    using single.prems(1,4) fuel by (simp add: is_digit_def)
  moreover have "skip_ws (''\<newline>'' @ indent @ '']'' @ rest) = CHR '']'' # rest"
    using skip_ws_spaces_head [of "''\<newline>'' @ indent" "CHR '']''" rest] single.prems(2)
    by (simp add: is_json_space_def)
  ultimately show ?case by (simp add: m)
next
  case (cons v vs)
  let ?sep = "'','' @ ''\<newline>'' @ inner"
  let ?tail = "join_with ?sep (map (stringify inner) vs) @ ''\<newline>'' @ indent @ '']''"
  have join: "join_with ?sep (map (stringify inner) (v # vs))
      = stringify inner v @ ?sep @ join_with ?sep (map (stringify inner) vs)"
    using cons.hyps by (simp add: join_with_Cons)
  from cons.prems(5) obtain m' where m: "m = Suc m'" by (cases m) auto
  have fuel: "length (stringify inner v) < m'" "length ?tail < m'"
    using cons.prems(5) m unfolding join by simp_all
  have first: "parse_value m' (ws @ stringify inner v @ (?sep @ ?tail @ rest))
          = Some (v, ?sep @ ?tail @ rest)"
    using cons.prems(1,4) fuel(1) by (simp add: is_digit_def)
  have comma: "skip_ws (?sep @ ?tail @ rest) = CHR '','' # (''\<newline>'' @ inner) @ ?tail @ rest"
    by (simp add: skip_ws_head is_json_space_def)
  have others: "parse_elements m' ((''\<newline>'' @ inner) @ ?tail @ rest) = Some (vs, rest)"
    using cons.IH [of "''\<newline>'' @ inner" m'] cons.prems(1,2,3) fuel(2)
      indent_spaces(2) [OF cons.prems(3)]
    by simp
  have text_eq: "ws @ join_with ?sep (map (stringify inner) (v # vs))
               @ ''\<newline>'' @ indent @ '']'' @ rest
      = ws @ stringify inner v @ (?sep @ ?tail @ rest)"
    unfolding join by simp
  show ?case
    unfolding text_eq m using first comma others by simp
qed

lemma parse_member_stringify:
  assumes value_parses: "\<forall>n ws rest.
             (\<forall>c \<in> set ws. is_json_space c) \<longrightarrow> (rest = [] \<or> is_digit (hd rest) = False)
             \<longrightarrow> length (stringify inner v) < n
             \<longrightarrow> parse_value n (ws @ stringify inner v @ rest) = Some (v, rest)"
      and "\<forall>c \<in> set ws. is_json_space c" and "rest = [] \<or> is_digit (hd rest) = False"
      and "length (stringify inner v) < n"
  shows "skip_ws (ws @ (quote k @ '': '' @ stringify inner v) @ rest)
           = CHR 0x22 # concat (map escape_char k) @ CHR 0x22 # '': '' @ stringify inner v @ rest"
    and "parse_string_body
           (concat (map escape_char k) @ CHR 0x22 # '': '' @ stringify inner v @ rest)
           = Some (k, '': '' @ stringify inner v @ rest)"
    and "skip_ws ('': '' @ stringify inner v @ rest)
           = CHR '':'' # '' '' @ stringify inner v @ rest"
    and "parse_value n ('' '' @ stringify inner v @ rest) = Some (v, rest)"
proof -
  show "skip_ws (ws @ (quote k @ '': '' @ stringify inner v) @ rest)
           = CHR 0x22 # concat (map escape_char k) @ CHR 0x22 # '': '' @ stringify inner v @ rest"
    using skip_ws_spaces_head [OF assms(2), of "CHR 0x22"]
    by (simp add: quote_def is_json_space_def)
  show "parse_string_body
           (concat (map escape_char k) @ CHR 0x22 # '': '' @ stringify inner v @ rest)
           = Some (k, '': '' @ stringify inner v @ rest)"
    by (rule parse_string_body_quote)
  show "skip_ws ('': '' @ stringify inner v @ rest)
           = CHR '':'' # '' '' @ stringify inner v @ rest"
    by (simp add: skip_ws_head is_json_space_def)
  have "\<forall>c \<in> set '' ''. is_json_space c" by (simp add: is_json_space_def)
  with value_parses assms(3,4)
  show "parse_value n ('' '' @ stringify inner v @ rest) = Some (v, rest)" by blast
qed

lemma parse_members_stringify:
  assumes "ps \<noteq> []"
      and "\<forall>p \<in> set ps. \<forall>n ws rest.
             (\<forall>c \<in> set ws. is_json_space c) \<longrightarrow> (rest = [] \<or> is_digit (hd rest) = False)
             \<longrightarrow> length (stringify inner (snd p)) < n
             \<longrightarrow> parse_value n (ws @ stringify inner (snd p) @ rest) = Some (snd p, rest)"
      and "\<forall>c \<in> set indent. is_json_space c" and "\<forall>c \<in> set inner. is_json_space c"
      and "\<forall>c \<in> set ws. is_json_space c"
      and "length (join_with ('','' @ ''\<newline>'' @ inner)
                     (map (\<lambda>(k, v). quote k @ '': '' @ stringify inner v) ps)
                     @ ''\<newline>'' @ indent @ ''}'') < m"
  shows "parse_members m
           (ws @ join_with ('','' @ ''\<newline>'' @ inner)
                   (map (\<lambda>(k, v). quote k @ '': '' @ stringify inner v) ps)
               @ ''\<newline>'' @ indent @ ''}'' @ rest) = Some (ps, rest)"
  using assms
proof (induction ps arbitrary: ws m rule: list_nonempty_induct)
  case (single p)
  obtain k v where p: "p = (k, v)" by (cases p)
  from single.prems(5) obtain m' where m: "m = Suc m'" by (cases m) auto
  let ?after = "''\<newline>'' @ indent @ ''}'' @ rest"
  have fuel: "length (stringify inner v) < m'" using single.prems(5) m p by simp
  have v: "\<forall>n ws rest.
             (\<forall>c \<in> set ws. is_json_space c) \<longrightarrow> (rest = [] \<or> is_digit (hd rest) = False)
             \<longrightarrow> length (stringify inner v) < n
             \<longrightarrow> parse_value n (ws @ stringify inner v @ rest) = Some (v, rest)"
    using single.prems(1) p by simp
  have after: "?after = [] \<or> is_digit (hd ?after) = False" by (simp add: is_digit_def)
  note member = parse_member_stringify [OF v single.prems(4) after fuel]
  have close: "skip_ws ?after = CHR ''}'' # rest"
    using skip_ws_spaces_head [of "''\<newline>'' @ indent" "CHR ''}''" rest] single.prems(2)
    by (simp add: is_json_space_def)
  have text_eq: "ws @ join_with ('','' @ ''\<newline>'' @ inner)
                   (map (\<lambda>(k, v). quote k @ '': '' @ stringify inner v) [p])
               @ ''\<newline>'' @ indent @ ''}'' @ rest
      = ws @ (quote k @ '': '' @ stringify inner v) @ ?after"
    by (simp add: p)
  show ?case
    unfolding text_eq m using member close by (simp add: p)
next
  case (cons p ps)
  obtain k v where p: "p = (k, v)" by (cases p)
  let ?sep = "'','' @ ''\<newline>'' @ inner"
  let ?f = "\<lambda>(k, v). quote k @ '': '' @ stringify inner v"
  let ?tail = "join_with ?sep (map ?f ps) @ ''\<newline>'' @ indent @ ''}''"
  let ?after = "?sep @ ?tail @ rest"
  have join: "join_with ?sep (map ?f (p # ps))
      = (quote k @ '': '' @ stringify inner v) @ ?sep @ join_with ?sep (map ?f ps)"
    using cons.hyps by (simp add: join_with_Cons p)
  from cons.prems(5) obtain m' where m: "m = Suc m'" by (cases m) auto
  have fuel: "length (stringify inner v) < m'" "length ?tail < m'"
    using cons.prems(5) m unfolding join by simp_all
  have v: "\<forall>n ws rest.
             (\<forall>c \<in> set ws. is_json_space c) \<longrightarrow> (rest = [] \<or> is_digit (hd rest) = False)
             \<longrightarrow> length (stringify inner v) < n
             \<longrightarrow> parse_value n (ws @ stringify inner v @ rest) = Some (v, rest)"
    using cons.prems(1) p by simp
  have after: "?after = [] \<or> is_digit (hd ?after) = False" by (simp add: is_digit_def)
  note member = parse_member_stringify [OF v cons.prems(4) after fuel(1)]
  have comma: "skip_ws ?after = CHR '','' # (''\<newline>'' @ inner) @ ?tail @ rest"
    by (simp add: skip_ws_head is_json_space_def)
  have others: "parse_members m' ((''\<newline>'' @ inner) @ ?tail @ rest) = Some (ps, rest)"
    using cons.IH [of "''\<newline>'' @ inner" m'] cons.prems(1,2,3) fuel(2)
      indent_spaces(2) [OF cons.prems(3)]
    by simp
  have text_eq: "ws @ join_with ?sep (map ?f (p # ps)) @ ''\<newline>'' @ indent @ ''}'' @ rest
      = ws @ (quote k @ '': '' @ stringify inner v) @ ?after"
    unfolding join by simp
  show ?case
    unfolding text_eq m using member comma others by (simp add: p)
qed

lemma parse_value_stringify:
  "\<forall>n ws rest indent.
     (\<forall>c \<in> set ws. is_json_space c) \<longrightarrow> (rest = [] \<or> is_digit (hd rest) = False)
     \<longrightarrow> (\<forall>c \<in> set indent. is_json_space c)
     \<longrightarrow> length (stringify indent v) < n
     \<longrightarrow> parse_value n (ws @ stringify indent v @ rest) = Some (v, rest)"
proof (induction v)
  case JNull
  show ?case
  proof (intro allI impI)
    fix n ws rest indent
    assume ws: "\<forall>c \<in> set ws. is_json_space c" and n: "length (stringify indent JNull) < n"
    from n obtain n' where n': "n = Suc n'" by (cases n) auto
    have "skip_ws (ws @ ''null'' @ rest) = ''null'' @ rest"
      using skip_ws_spaces_head [OF ws, of "CHR ''n''"] by (simp add: is_json_space_def)
    then show "parse_value n (ws @ stringify indent JNull @ rest) = Some (JNull, rest)"
      by (simp add: n' is_digit_def)
  qed
next
  case (JBool b)
  show ?case
  proof (intro allI impI)
    fix n ws rest indent
    assume ws: "\<forall>c \<in> set ws. is_json_space c" and n: "length (stringify indent (JBool b)) < n"
    from n obtain n' where n': "n = Suc n'" by (cases n) auto
    show "parse_value n (ws @ stringify indent (JBool b) @ rest) = Some (JBool b, rest)"
    proof (cases b)
      case True
      have "skip_ws (ws @ ''true'' @ rest) = ''true'' @ rest"
        using skip_ws_spaces_head [OF ws, of "CHR ''t''"] by (simp add: is_json_space_def)
      then show ?thesis by (simp add: n' True is_digit_def)
    next
      case False
      have "skip_ws (ws @ ''false'' @ rest) = ''false'' @ rest"
        using skip_ws_spaces_head [OF ws, of "CHR ''f''"] by (simp add: is_json_space_def)
      then show ?thesis by (simp add: n' False is_digit_def)
    qed
  qed
next
  case (JNumber k)
  show ?case
  proof (intro allI impI)
    fix n ws rest indent
    assume ws: "\<forall>c \<in> set ws. is_json_space c"
      and rest: "rest = [] \<or> is_digit (hd rest) = False"
      and n: "length (stringify indent (JNumber k)) < n"
    from n obtain n' where n': "n = Suc n'" by (cases n) auto
    obtain c cs where cs: "show_nat k = c # cs"
      using show_nat_not_empty [of k] by (cases "show_nat k") auto
    then have digit: "is_digit c" using show_nat_digits [of k] by simp
    then have plain: "\<not> is_json_space c" "c \<noteq> CHR 0x22" "c \<noteq> CHR ''[''" "c \<noteq> CHR ''{''"
      by (auto simp: is_digit_def is_json_space_def)
    have "skip_ws (ws @ show_nat k @ rest) = c # cs @ rest"
      using skip_ws_spaces_head [OF ws plain(1)] cs by simp
    moreover have "read_digits 0 (c # cs @ rest) = (k, rest)"
      using read_show_nat [OF rest, of k] cs by simp
    ultimately
    show "parse_value n (ws @ stringify indent (JNumber k) @ rest) = Some (JNumber k, rest)"
      using digit plain by (simp add: n' del: read_digits.simps)
  qed
next
  case (JString s)
  show ?case
  proof (intro allI impI)
    fix n ws rest indent
    assume ws: "\<forall>c \<in> set ws. is_json_space c"
      and n: "length (stringify indent (JString s)) < n"
    from n obtain n' where n': "n = Suc n'" by (cases n) auto
    have "skip_ws (ws @ quote s @ rest)
        = CHR 0x22 # concat (map escape_char s) @ CHR 0x22 # rest"
      using skip_ws_spaces_head [OF ws, of "CHR 0x22"] by (simp add: quote_def is_json_space_def)
    then show "parse_value n (ws @ stringify indent (JString s) @ rest) = Some (JString s, rest)"
      by (simp add: n' parse_string_body_quote del: parse_string_body.simps)
  qed
next
  case (JArray vs)
  show ?case
  proof (intro allI impI)
    fix n ws rest indent
    assume ws: "\<forall>c \<in> set ws. is_json_space c"
      and indent: "\<forall>c \<in> set indent. is_json_space c"
      and n: "length (stringify indent (JArray vs)) < n"
    from n obtain n' where n': "n = Suc n'" by (cases n) auto
    show "parse_value n (ws @ stringify indent (JArray vs) @ rest) = Some (JArray vs, rest)"
    proof (cases "vs = []")
      case True
      have "skip_ws (ws @ ''[]'' @ rest) = ''[]'' @ rest"
        using skip_ws_spaces_head [OF ws, of "CHR ''[''"] by (simp add: is_json_space_def)
      moreover have "skip_ws ('']'' @ rest) = '']'' @ rest"
        by (simp add: skip_ws_head is_json_space_def)
      ultimately show ?thesis by (simp add: n' True)
    next
      case False
      let ?inner = "indent @ ''  ''"
      let ?body = "join_with ('','' @ ''\<newline>'' @ ?inner) (map (stringify ?inner) vs)"
      have inner: "\<forall>c \<in> set ?inner. is_json_space c" by (rule indent_spaces(1) [OF indent])
      have elements: "\<forall>v \<in> set vs. \<forall>n ws rest.
             (\<forall>c \<in> set ws. is_json_space c) \<longrightarrow> (rest = [] \<or> is_digit (hd rest) = False)
             \<longrightarrow> length (stringify ?inner v) < n
             \<longrightarrow> parse_value n (ws @ stringify ?inner v @ rest) = Some (v, rest)"
        using JArray inner by blast
      have text_eq: "ws @ stringify indent (JArray vs) @ rest
          = ws @ CHR ''['' # (''\<newline>'' @ ?inner) @ ?body @ ''\<newline>'' @ indent @ '']'' @ rest"
        using False by simp
      have open_bracket: "skip_ws (ws @ CHR ''['' # (''\<newline>'' @ ?inner) @ ?body
            @ ''\<newline>'' @ indent @ '']'' @ rest)
          = CHR ''['' # (''\<newline>'' @ ?inner) @ ?body @ ''\<newline>'' @ indent @ '']'' @ rest"
        using skip_ws_spaces_head [OF ws, of "CHR ''[''"] by (simp add: is_json_space_def)
      obtain v vs' where vs: "vs = v # vs'" using False by (cases vs) auto
      obtain c cs where head: "stringify ?inner v = c # cs" "\<not> is_json_space c" "c \<noteq> CHR '']''"
        using stringify_head [of ?inner v] by blast
      have "\<exists>more. ?body @ ''\<newline>'' @ indent @ '']'' @ rest = c # more"
        using head(1) vs by (cases vs') simp_all
      then obtain more where more: "?body @ ''\<newline>'' @ indent @ '']'' @ rest = c # more" ..
      have first: "skip_ws ((''\<newline>'' @ ?inner) @ ?body @ ''\<newline>'' @ indent @ '']'' @ rest)
          = c # more"
        using skip_ws_spaces_head [OF indent_spaces(2) [OF inner] head(2), of more] more
        by simp
      have fuel: "length (?body @ ''\<newline>'' @ indent @ '']'') < n'"
        using n n' False by simp
      have "parse_elements n' ((''\<newline>'' @ ?inner) @ ?body @ ''\<newline>'' @ indent @ '']'' @ rest)
          = Some (vs, rest)"
        using parse_elements_stringify
                [OF False elements indent inner indent_spaces(2) [OF inner] fuel]
        by simp
      then show ?thesis
        unfolding text_eq n' using open_bracket first head(3) by simp
    qed
  qed
next
  case (JObject ps)
  show ?case
  proof (intro allI impI)
    fix n ws rest indent
    assume ws: "\<forall>c \<in> set ws. is_json_space c"
      and indent: "\<forall>c \<in> set indent. is_json_space c"
      and n: "length (stringify indent (JObject ps)) < n"
    from n obtain n' where n': "n = Suc n'" by (cases n) auto
    show "parse_value n (ws @ stringify indent (JObject ps) @ rest) = Some (JObject ps, rest)"
    proof (cases "ps = []")
      case True
      have "skip_ws (ws @ ''{}'' @ rest) = ''{}'' @ rest"
        using skip_ws_spaces_head [OF ws, of "CHR ''{''"] by (simp add: is_json_space_def)
      moreover have "skip_ws (''}'' @ rest) = ''}'' @ rest"
        by (simp add: skip_ws_head is_json_space_def)
      ultimately show ?thesis by (simp add: n' True)
    next
      case False
      let ?inner = "indent @ ''  ''"
      let ?body = "join_with ('','' @ ''\<newline>'' @ ?inner)
                     (map (\<lambda>(k, v). quote k @ '': '' @ stringify ?inner v) ps)"
      have inner: "\<forall>c \<in> set ?inner. is_json_space c" by (rule indent_spaces(1) [OF indent])
      have members: "\<forall>p \<in> set ps. \<forall>n ws rest.
             (\<forall>c \<in> set ws. is_json_space c) \<longrightarrow> (rest = [] \<or> is_digit (hd rest) = False)
             \<longrightarrow> length (stringify ?inner (snd p)) < n
             \<longrightarrow> parse_value n (ws @ stringify ?inner (snd p) @ rest) = Some (snd p, rest)"
      proof
        fix p assume p: "p \<in> set ps"
        obtain k v where kv: "p = (k, v)" by (cases p)
        with p have "v \<in> Basic_BNFs.snds p" by simp
        from JObject [OF p this] inner kv
        show "\<forall>n ws rest.
             (\<forall>c \<in> set ws. is_json_space c) \<longrightarrow> (rest = [] \<or> is_digit (hd rest) = False)
             \<longrightarrow> length (stringify ?inner (snd p)) < n
             \<longrightarrow> parse_value n (ws @ stringify ?inner (snd p) @ rest) = Some (snd p, rest)"
          by simp
      qed
      have text_eq: "ws @ stringify indent (JObject ps) @ rest
          = ws @ CHR ''{'' # (''\<newline>'' @ ?inner) @ ?body @ ''\<newline>'' @ indent @ ''}'' @ rest"
        using False by simp
      have open_brace: "skip_ws (ws @ CHR ''{'' # (''\<newline>'' @ ?inner) @ ?body
            @ ''\<newline>'' @ indent @ ''}'' @ rest)
          = CHR ''{'' # (''\<newline>'' @ ?inner) @ ?body @ ''\<newline>'' @ indent @ ''}'' @ rest"
        using skip_ws_spaces_head [OF ws, of "CHR ''{''"] by (simp add: is_json_space_def)
      obtain p ps' where ps: "ps = p # ps'" using False by (cases ps) auto
      obtain k v where kv: "p = (k, v)" by (cases p)
      have "\<exists>more. ?body @ ''\<newline>'' @ indent @ ''}'' @ rest = CHR 0x22 # more"
        using ps kv by (cases ps') (simp_all add: quote_def)
      then obtain more where more: "?body @ ''\<newline>'' @ indent @ ''}'' @ rest = CHR 0x22 # more" ..
      have first: "skip_ws ((''\<newline>'' @ ?inner) @ ?body @ ''\<newline>'' @ indent @ ''}'' @ rest)
          = CHR 0x22 # more"
        using skip_ws_spaces_head [OF indent_spaces(2) [OF inner], of "CHR 0x22" more] more
        by (simp add: is_json_space_def)
      have fuel: "length (?body @ ''\<newline>'' @ indent @ ''}'') < n'"
        using n n' False by simp
      have "parse_members n' ((''\<newline>'' @ ?inner) @ ?body @ ''\<newline>'' @ indent @ ''}'' @ rest)
          = Some (ps, rest)"
        using parse_members_stringify
                [OF False members indent inner indent_spaces(2) [OF inner] fuel]
        by simp
      then show ?thesis
        unfolding text_eq n' using open_brace first by simp
    qed
  qed
qed

lemma JSON_parse_stringify: "JSON_parse (JSON_stringify v) = Some v"
proof -
  have "parse_value (Suc (length (stringify [] v))) ([] @ stringify [] v @ [])
          = Some (v, [])"
  proof -
    have "\<forall>c \<in> set ([] :: string). is_json_space c"
      and "([] :: string) = [] \<or> is_digit (hd ([] :: string)) = False"
      and "length (stringify [] v) < Suc (length (stringify [] v))"
      by simp_all
    with parse_value_stringify [of v] show ?thesis by blast
  qed
  then show ?thesis
    by (simp add: JSON_parse_def JSON_stringify_def skip_ws_def del: parse_value.simps)
qed

lemma name_type_type_name: "name_type (type_name t) = Some t"
  by (cases t) (simp_all add: name_type_def type_name_def)

lemma json_message_message_json: "json_message (message_json m) = Some m"
  by (cases "msg_persona m"; cases "msg_llm m"; cases "msg_isRealAI m")
     (simp_all add: message_json_def present_def name_type_type_name)

lemma document_messages_chatData:
  "document_messages (chatData s exportedAt) = map Some (localChatHistory s)"
  by (cases "selectedEnvironment s")
     (simp_all add: chatData_def present_def comp_def json_message_message_json)

text \<open>
  Claim C8. The blob \<^verbatim>\<open>exportChat\<close> writes is the serialisation of \<^verbatim>\<open>chatData\<close>; for a
  selected environment \<^verbatim>\<open>chatData\<close> has the properties \<^verbatim>\<open>environment\<close>,
  \<^verbatim>\<open>participants\<close> (the names), \<^verbatim>\<open>messages\<close> and \<^verbatim>\<open>exportedAt\<close>, in this order;
  parsing the blob gives \<^verbatim>\<open>chatData\<close> back, and reading the objects of its
  \<^verbatim>\<open>messages\<close> array gives the messages of the transcript, all of them, in their
  order and with the value of every property.
\<close>

theorem export_round_trip:
  "JSON_parse (snd (exportChat s exportedAt now)) = Some (chatData s exportedAt)
   \<and> chatData (s\<lparr>selectedEnvironment := Some e\<rparr>) exportedAt =
       JObject
         [(''environment'', JString (env_name e)),
          (''participants'', JArray (map (\<lambda>p. JString (persona_name p)) (env_participants e))),
          (''messages'', JArray (map message_json (localChatHistory s))),
          (''exportedAt'', JString exportedAt)]
   \<and> map_option document_messages (JSON_parse (snd (exportChat s exportedAt now)))
       = Some (map Some (localChatHistory s))"
  by (simp add: exportChat_def JSON_parse_stringify document_messages_chatData)
     (simp add: chatData_def present_def)

theorem export_round_trip_witness:
  "map msg_type (localChatHistory exported_state) = [System, AI]
   \<and> map_option document_messages
        (JSON_parse (snd (exportChat exported_state ''2024-05-01T10:16:00.000Z'' 1700000060000)))
       = Some (map Some (localChatHistory exported_state))"
proof -
  have "map msg_type (localChatHistory exported_state) = [System, AI]"
    by (simp add: exported_state_def simulateAIResponse_history started_state_fields
          turn_reply_other_model bob_facts turn_message_returned)
  with export_round_trip [of exported_state "''2024-05-01T10:16:00.000Z''" 1700000060000]
  show ?thesis by blast
qed

end
